theory Spec2Isabelle
  imports Complex_Main "HOL-Library.Word" "HOL-Library.Sublist"
begin

section \<open>QErase: the erasure engine of \<^verbatim>\<open>src/main.py\<close>\<close>

text \<open>
  The development embeds the engine of \<^verbatim>\<open>src/main.py\<close>: the module-level helpers
  (\<^verbatim>\<open>is_valid_file_path\<close>, \<^verbatim>\<open>is_file_in_use\<close>, \<^verbatim>\<open>get_processes_using_file\<close>,
  \<^verbatim>\<open>terminate_process\<close>) and the worker class \<^verbatim>\<open>EraseThread\<close> (\<^verbatim>\<open>__init__\<close>,
  \<^verbatim>\<open>should_update_progress\<close>, \<^verbatim>\<open>run\<close>, \<^verbatim>\<open>get_passes\<close>, \<^verbatim>\<open>generate_pattern\<close>).
  The Qt widgets are not part of it.

  Conventions.
  \<^item> A byte is an \<open>8 word\<close>; a \<^verbatim>\<open>bytes\<close> object is a list of bytes.
  \<^item> A path is the list of its components, so \<^verbatim>\<open>os.path.join(root, name)\<close> is
    \<open>root @ [name]\<close> and \<^verbatim>\<open>os.path.dirname(p)\<close> is \<open>butlast p\<close>.
  \<^item> The user-visible messages are Chinese string literals; each one is a constructor
    of \<open>err_text\<close> or \<open>status_text\<close> that carries the path the message names (the source
    shows it shortened by \<^verbatim>\<open>truncate_middle\<close>).
  \<^item> Calls of \<^verbatim>\<open>logging\<close> write a log file only and are left out.
\<close>

subsection \<open>Bytes and the random source\<close>

type_synonym byte = "8 word"

type_synonym path = "string list"

text \<open>
  Python's module-level generator \<^verbatim>\<open>random\<close> is a hidden state that every call
  advances. It is modelled as the infinite sequence of its outputs (\<open>draws\<close>) and the
  index of the next one (\<open>cursor\<close>).
\<close>

record rng =
  draws :: "nat \<Rightarrow> nat"
  cursor :: nat

text \<open>\<^verbatim>\<open>random.randint(0, 255)\<close>: one output of the generator, as a byte.\<close>

definition randint_0_255 :: "rng \<Rightarrow> byte \<times> rng" where
  "randint_0_255 g = (of_nat (draws g (cursor g)), g\<lparr>cursor := cursor g + 1\<rparr>)"

text \<open>\<^verbatim>\<open>bytes([random.randint(0, 255) for _ in range(n)])\<close>\<close>

primrec random_bytes :: "nat \<Rightarrow> rng \<Rightarrow> byte list \<times> rng" where
  "random_bytes 0 g = ([], g)"
| "random_bytes (Suc n) g =
     (case randint_0_255 g of (b, g1) \<Rightarrow>
        (case random_bytes n g1 of (bs, g2) \<Rightarrow> (b # bs, g2)))"

text \<open>
  \<^verbatim>\<open>for _ in range(k): patterns.append(bytes([random.randint(0, 255) for _ in range(1024)]))\<close>
\<close>

primrec random_buffers :: "nat \<Rightarrow> rng \<Rightarrow> byte list list \<times> rng" where
  "random_buffers 0 g = ([], g)"
| "random_buffers (Suc k) g =
     (case random_bytes 1024 g of (buf, g1) \<Rightarrow>
        (case random_buffers k g1 of (bufs, g2) \<Rightarrow> (buf # bufs, g2)))"

subsection \<open>\<^verbatim>\<open>EraseThread.get_passes\<close> and \<^verbatim>\<open>EraseThread.generate_pattern\<close>\<close>

text \<open>
  \<^verbatim>\<open>self.method\<close> is the label of the standard chosen in the window. \<^verbatim>\<open>get_passes\<close>
  compares it with four literals (lines 383, 393, 403, 443); every other label,
  the single-pass one included, takes the default of line 453.
\<close>

datatype erase_method =
    DoD_5220_22_M
  | DoD_5220_22_M_ECE
  | Gutmann
  | German_VSITR
  | Other_label

text \<open>\<^verbatim>\<open>b'\x00' * 1024\<close>, \<^verbatim>\<open>bytes([0x55] * 1024)\<close>: a buffer of 1024 equal bytes.\<close>

definition fill :: "byte \<Rightarrow> byte list" where
  "fill b = replicate 1024 b"

text \<open>The list \<^verbatim>\<open>special_patterns\<close> of lines 417-433: fifteen rows of eight values.\<close>

definition special_patterns :: "byte list" where
  "special_patterns =
    [0x92, 0x49, 0x24, 0x92, 0x49, 0x24, 0x92, 0x49,
     0x49, 0x24, 0x92, 0x49, 0x24, 0x92, 0x49, 0x24,
     0x24, 0x92, 0x49, 0x24, 0x92, 0x49, 0x24, 0x92,
     0x00, 0x00, 0x00, 0x00, 0x00, 0x00, 0x00, 0x00,
     0x11, 0x11, 0x11, 0x11, 0x11, 0x11, 0x11, 0x11,
     0x22, 0x22, 0x22, 0x22, 0x22, 0x22, 0x22, 0x22,
     0x33, 0x33, 0x33, 0x33, 0x33, 0x33, 0x33, 0x33,
     0x44, 0x44, 0x44, 0x44, 0x44, 0x44, 0x44, 0x44,
     0x55, 0x55, 0x55, 0x55, 0x55, 0x55, 0x55, 0x55,
     0x66, 0x66, 0x66, 0x66, 0x66, 0x66, 0x66, 0x66,
     0x77, 0x77, 0x77, 0x77, 0x77, 0x77, 0x77, 0x77,
     0x88, 0x88, 0x88, 0x88, 0x88, 0x88, 0x88, 0x88,
     0x99, 0x99, 0x99, 0x99, 0x99, 0x99, 0x99, 0x99,
     0xAA, 0xAA, 0xAA, 0xAA, 0xAA, 0xAA, 0xAA, 0xAA,
     0xBB, 0xBB, 0xBB, 0xBB, 0xBB, 0xBB, 0xBB, 0xBB]"

text \<open>
  \<^verbatim>\<open>get_passes\<close> builds the list of pattern buffers of the chosen standard. The
  random buffers are drawn while the list is built, in list order; the generator
  after the call is returned with the list.
\<close>

definition get_passes :: "erase_method \<Rightarrow> rng \<Rightarrow> byte list list \<times> rng" where
  "get_passes m g =
    (case m of
       DoD_5220_22_M \<Rightarrow>
         (case random_bytes 1024 g of (r, g1) \<Rightarrow>
            ([fill 0x00, fill 0x01, fill 0x00, fill 0x01, fill 0x00, fill 0x01, r], g1))
     | DoD_5220_22_M_ECE \<Rightarrow>
         (case random_bytes 1024 g of (r1, g1) \<Rightarrow>
            (case random_bytes 1024 g1 of (r2, g2) \<Rightarrow>
               ([fill 0x00, fill 0xFF, r1, fill 0x00, fill 0xFF, r2, fill 0x00], g2)))
     | Gutmann \<Rightarrow>
         (case random_buffers 4 g of (rs1, g1) \<Rightarrow>
            (case random_buffers 6 g1 of (rs2, g2) \<Rightarrow>
               (replicate 4 (fill 0x00) @ [fill 0x55] @ [fill 0xAA] @ rs1
                  @ map fill special_patterns @ rs2 @ replicate 4 (fill 0x00), g2)))
     | German_VSITR \<Rightarrow>
         (case random_bytes 1024 g of (r1, g1) \<Rightarrow>
            (case random_bytes 1024 g1 of (r2, g2) \<Rightarrow>
               ([fill 0x00, fill 0xFF, r1, fill 0x00, fill 0xFF, r2, fill 0x00], g2)))
     | Other_label \<Rightarrow> ([fill 0x00], g))"

text \<open>
  \<^verbatim>\<open>pattern[:size]\<close>. A slice with a non-negative bound keeps at most that many
  leading elements; with a negative bound it drops that many trailing ones.
\<close>

definition generate_pattern :: "byte list \<Rightarrow> int \<Rightarrow> byte list" where
  "generate_pattern pattern sz =
     (if 0 \<le> sz then take (nat sz) pattern
      else take (length pattern - nat (- sz)) pattern)"

text \<open>\<^verbatim>\<open>CHUNK_SIZE = 64 * 1024\<close> (line 174).\<close>

definition CHUNK_SIZE :: nat where
  "CHUNK_SIZE = 64 * 1024"

subsection \<open>Exceptions, signals and the record of system operations\<close>

text \<open>
  The exceptions the engine can meet. \<open>OSError\<close> stands for \<^verbatim>\<open>OSError\<close> and its
  subclasses (\<^verbatim>\<open>IOError\<close> is the same class in Python 3); \<open>Shell_failed\<close> is the
  \<^verbatim>\<open>Exception\<close> raised at line 367.
\<close>

datatype py_exn =
    OSError
  | ZeroDivisionError
  | NoSuchProcess
  | AccessDenied
  | TimeoutExpired
  | Shell_failed

text \<open>
  How a block of statements ends: it runs to its end, it executes \<^verbatim>\<open>return\<close>
  (which ends \<^verbatim>\<open>run\<close>), or it raises.
\<close>

datatype outcome = Done | Returned | Raised py_exn

text \<open>
  The texts of the \<^verbatim>\<open>error\<close> signal (lines 158, 183, 236 and 293, 239 and 296, 370,
  373, 380) and of the \<^verbatim>\<open>file_status\<close> signal (lines 205 and 251, 255, 306).
\<close>

datatype err_text =
    No_valid_files
  | Cancelled
  | Delete_file_failed path
  | Process_file_failed path
  | Delete_folder_failed path
  | Process_folder_failed path
  | Run_failed py_exn

datatype status_text =
    Shredding path
  | In_use path
  | Processing_folder path

text \<open>The five signals of \<^verbatim>\<open>EraseThread\<close> (lines 123-127).\<close>

datatype event =
    Progress int
  | Finished
  | Error err_text
  | File_status status_text
  | Folder_deleted path

text \<open>
  The calls the engine makes on the operating system, in the order it makes them,
  whether they succeed or not. \<open>Probe\<close> is the \<^verbatim>\<open>open(file_path, 'a')\<close> of
  \<^verbatim>\<open>is_file_in_use\<close>; \<open>Write p bs\<close> is an \<^verbatim>\<open>f.write\<close> of the bytes \<open>bs\<close> to the file \<open>p\<close>.
\<close>

datatype action =
    Probe path
  | Open_wb path
  | Open_rwb path
  | Write path "byte list"
  | Remove path
  | Rmdir path
  | Rename path path
  | Move path path
  | Rmtree path
  | Shell_rm path
  | Terminate nat
  | Wait nat
  | Kill nat

subsection \<open>The file system\<close>

text \<open>
  The file system is the ordered list of its entries. A file has its content; every
  entry lists the operations the system refuses on it for reasons outside the model
  (permissions, attributes, a device boundary): \<open>Access\<close> makes
  \<^verbatim>\<open>os.access(p, os.R_OK | os.W_OK)\<close> false, \<open>Open\<close> makes \<^verbatim>\<open>open\<close> raise, \<open>Unlink\<close>
  makes Python's removal of the entry fail, \<open>Rename_op\<close> and \<open>Move_op\<close> make
  \<^verbatim>\<open>os.rename\<close> and \<^verbatim>\<open>shutil.move\<close> of the entry raise, and \<open>Shell_op\<close> makes the shell
  command unable to remove it.
\<close>

datatype osop = Access | Open | Unlink | Rename_op | Move_op | Shell_op

datatype node =
    File_node (content: "byte list") (refused: "osop list")
  | Dir_node (refused: "osop list")

type_synonym fsys = "(path \<times> node) list"

definition exists_path :: "fsys \<Rightarrow> path \<Rightarrow> bool" where
  "exists_path fs p = (map_of fs p \<noteq> None)"

definition isfile :: "fsys \<Rightarrow> path \<Rightarrow> bool" where
  "isfile fs p = (case map_of fs p of Some (File_node c r) \<Rightarrow> True | _ \<Rightarrow> False)"

definition isdir :: "fsys \<Rightarrow> path \<Rightarrow> bool" where
  "isdir fs p = (case map_of fs p of Some (Dir_node r) \<Rightarrow> True | _ \<Rightarrow> False)"

definition refuses :: "fsys \<Rightarrow> path \<Rightarrow> osop \<Rightarrow> bool" where
  "refuses fs p opn = (case map_of fs p of None \<Rightarrow> False | Some n \<Rightarrow> opn \<in> set (refused n))"

text \<open>\<^verbatim>\<open>os.access(p, os.R_OK | os.W_OK)\<close>\<close>

definition os_access :: "fsys \<Rightarrow> path \<Rightarrow> bool" where
  "os_access fs p = (exists_path fs p \<and> \<not> refuses fs p Access)"

text \<open>\<^verbatim>\<open>os.path.getsize\<close> raises on a missing path.\<close>

definition getsize :: "fsys \<Rightarrow> path \<Rightarrow> py_exn + nat" where
  "getsize fs p =
     (case map_of fs p of
        None \<Rightarrow> Inl OSError
      | Some (File_node c r) \<Rightarrow> Inr (length c)
      | Some (Dir_node r) \<Rightarrow> Inr 0)"

text \<open>The names in a directory, in listing order, then split as \<^verbatim>\<open>os.walk\<close> does.\<close>

definition listdir :: "fsys \<Rightarrow> path \<Rightarrow> string list" where
  "listdir fs d = map last (filter (\<lambda>p. p \<noteq> [] \<and> butlast p = d) (map fst fs))"

definition subdirs :: "fsys \<Rightarrow> path \<Rightarrow> string list" where
  "subdirs fs d = filter (\<lambda>n. isdir fs (d @ [n])) (listdir fs d)"

definition filenames :: "fsys \<Rightarrow> path \<Rightarrow> string list" where
  "filenames fs d = filter (\<lambda>n. \<not> isdir fs (d @ [n])) (listdir fs d)"

text \<open>
  \<^verbatim>\<open>os.walk(d, topdown=False)\<close>: the triples \<^verbatim>\<open>(root, dirs, files)\<close> of every
  directory below \<open>d\<close>, children before their parent; nothing when \<open>d\<close> is not a
  directory. The generator lists a directory when it reaches it. The loop body of
  \<^verbatim>\<open>run\<close> changes only files of triples already produced, so the triples are those of
  the file system at the call.
\<close>

function walk_up :: "fsys \<Rightarrow> path \<Rightarrow> (path \<times> string list \<times> string list) list" where
  "walk_up fs d =
     (if isdir fs d
      then concat (map (walk_up fs) (map (\<lambda>n. d @ [n]) (subdirs fs d)))
             @ [(d, subdirs fs d, filenames fs d)]
      else [])"
  by pat_completeness auto
termination
proof (relation "measure (\<lambda>(fs, d). length (filter (strict_prefix d) (map fst fs)))")
  show "wf (measure (\<lambda>(fs, d). length (filter (strict_prefix d) (map fst fs))))"
    by simp
next
  fix fs :: fsys and d x :: path
  assume dir: "isdir fs d"
    and x: "x \<in> set (map (\<lambda>n. d @ [n]) (subdirs fs d))"
  from x obtain p where p: "p \<in> set (map fst fs)" "p \<noteq> []" "butlast p = d" "x = d @ [last p]"
    by (auto simp: subdirs_def listdir_def)
  then have xp: "x = p"
    by (metis append_butlast_last_id)
  have below: "strict_prefix d x"
    using p by (simp add: strict_prefix_def)
  have sub: "\<And>q. strict_prefix x q \<Longrightarrow> strict_prefix d q"
    using below by (metis strict_prefix_def prefix_order.dual_order.strict_trans)
  have "length (filter (strict_prefix x) (map fst fs))
          < length (filter (strict_prefix d) (map fst fs))"
  proof -
    have "filter (strict_prefix x) (map fst fs)
            = filter (strict_prefix x) (filter (strict_prefix d) (map fst fs))"
      using sub by (auto intro: filter_cong)
    moreover have "x \<in> set (filter (strict_prefix d) (map fst fs))"
      using p xp below by simp
    moreover have "\<not> strict_prefix x x"
      by simp
    ultimately show ?thesis
      by (metis length_filter_less)
  qed
  then show "((fs, x), (fs, d))
               \<in> measure (\<lambda>(fs, d). length (filter (strict_prefix d) (map fst fs)))"
    by simp
qed

text \<open>\<^verbatim>\<open>os.walk(d)\<close>, parents first, as the sizing loop of lines 167-171 uses it.\<close>

function walk_down :: "fsys \<Rightarrow> path \<Rightarrow> (path \<times> string list \<times> string list) list" where
  "walk_down fs d =
     (if isdir fs d
      then (d, subdirs fs d, filenames fs d)
             # concat (map (walk_down fs) (map (\<lambda>n. d @ [n]) (subdirs fs d)))
      else [])"
  by pat_completeness auto
termination
proof (relation "measure (\<lambda>(fs, d). length (filter (strict_prefix d) (map fst fs)))")
  show "wf (measure (\<lambda>(fs, d). length (filter (strict_prefix d) (map fst fs))))"
    by simp
next
  fix fs :: fsys and d x :: path
  assume dir: "isdir fs d"
    and x: "x \<in> set (map (\<lambda>n. d @ [n]) (subdirs fs d))"
  from x obtain p where p: "p \<in> set (map fst fs)" "p \<noteq> []" "butlast p = d" "x = d @ [last p]"
    by (auto simp: subdirs_def listdir_def)
  then have xp: "x = p"
    by (metis append_butlast_last_id)
  have below: "strict_prefix d x"
    using p by (simp add: strict_prefix_def)
  have sub: "\<And>q. strict_prefix x q \<Longrightarrow> strict_prefix d q"
    using below by (metis strict_prefix_def prefix_order.dual_order.strict_trans)
  have "length (filter (strict_prefix x) (map fst fs))
          < length (filter (strict_prefix d) (map fst fs))"
  proof -
    have "filter (strict_prefix x) (map fst fs)
            = filter (strict_prefix x) (filter (strict_prefix d) (map fst fs))"
      using sub by (auto intro: filter_cong)
    moreover have "x \<in> set (filter (strict_prefix d) (map fst fs))"
      using p xp below by simp
    moreover have "\<not> strict_prefix x x"
      by simp
    ultimately show ?thesis
      by (metis length_filter_less)
  qed
  then show "((fs, x), (fs, d))
               \<in> measure (\<lambda>(fs, d). length (filter (strict_prefix d) (map fst fs)))"
    by simp
qed

subsection \<open>Processes\<close>

text \<open>
  A process of the process table, with what \<^verbatim>\<open>psutil\<close> reports about it:
  \<open>open_files\<close> are the paths it holds open, \<open>inspect_error\<close> is the exception that
  \<^verbatim>\<open>proc.open_files()\<close> raises, if any. \<open>heeds_terminate\<close> says whether the process
  exits within the three seconds of the wait once it is asked to terminate, and
  \<open>protected\<close> whether signalling it is denied.
\<close>

record process =
  pid :: nat
  pname :: string
  open_files :: "path list"
  inspect_error :: "py_exn option"
  alive :: bool
  heeds_terminate :: bool
  protected :: bool

text \<open>
  The four \<^verbatim>\<open>psutil.Process\<close> methods that \<^verbatim>\<open>terminate_process\<close> calls, after the
  library's documentation: \<^verbatim>\<open>terminate()\<close> and \<^verbatim>\<open>kill()\<close> raise \<^verbatim>\<open>NoSuchProcess\<close> on a
  process that is gone and \<^verbatim>\<open>AccessDenied\<close> on a protected one; \<^verbatim>\<open>wait(timeout=3)\<close>
  returns once the process is gone and raises \<^verbatim>\<open>TimeoutExpired\<close> when it is still
  alive at the end of the timeout.
\<close>

definition proc_is_running :: "process \<Rightarrow> bool" where
  "proc_is_running p = alive p"

definition proc_terminate :: "process \<Rightarrow> py_exn + process" where
  "proc_terminate p =
     (if \<not> alive p then Inl NoSuchProcess
      else if protected p then Inl AccessDenied
      else Inr (if heeds_terminate p then p\<lparr>alive := False\<rparr> else p))"

definition proc_wait :: "process \<Rightarrow> py_exn + process" where
  "proc_wait p = (if alive p then Inl TimeoutExpired else Inr p)"

definition proc_kill :: "process \<Rightarrow> py_exn + process" where
  "proc_kill p =
     (if \<not> alive p then Inl NoSuchProcess
      else if protected p then Inl AccessDenied
      else Inr (p\<lparr>alive := False\<rparr>))"

text \<open>
  \<^verbatim>\<open>terminate_process\<close> (lines 95-106). The result is the returned boolean, the
  process afterwards and the calls made on it. Every exception is caught by the
  handler of line 104, after which line 106 returns \<^verbatim>\<open>False\<close>.
\<close>

definition terminate_process :: "process \<Rightarrow> bool \<times> process \<times> action list" where
  "terminate_process p =
     (if proc_is_running p then
        (case proc_terminate p of
           Inl e \<Rightarrow> (False, p, [Terminate (pid p)])
         | Inr p1 \<Rightarrow>
            (case proc_wait p1 of
               Inl e \<Rightarrow> (False, p1, [Terminate (pid p), Wait (pid p)])
             | Inr p2 \<Rightarrow>
                (if proc_is_running p2 then
                   (case proc_kill p2 of
                      Inl e \<Rightarrow> (False, p2, [Terminate (pid p), Wait (pid p), Kill (pid p)])
                    | Inr p3 \<Rightarrow> (True, p3, [Terminate (pid p), Wait (pid p), Kill (pid p)]))
                 else (True, p2, [Terminate (pid p), Wait (pid p)]))))
      else (False, p, []))"

subsection \<open>The state of a batch\<close>

text \<open>
  The fields of the \<^verbatim>\<open>EraseThread\<close> object (lines 131-139), the signals emitted so
  far (\<open>events\<close>) and the surroundings of the thread: the file system, the process
  table, the random generator, the clock (\<open>clock k\<close> is what the \<open>k\<close>-th call of
  \<^verbatim>\<open>time.time()\<close> returns; \<open>ticks\<close> counts the calls), the operations performed
  (\<open>oplog\<close>), and the cancellation flag.

  The flag \<^verbatim>\<open>_is_running\<close> starts true and only \<^verbatim>\<open>stop()\<close> (line 152), called by the
  window's thread, clears it. The worker sees it only when it reads it. \<open>polls\<close>
  counts the reads made so far, and \<open>stop_at = Some k\<close> says that \<^verbatim>\<open>stop()\<close> is called
  after the \<open>k\<close>-th read and before the next one: the first \<open>k\<close> reads see the flag
  set to true, all later ones see false. \<open>stop_at = None\<close>: \<^verbatim>\<open>stop()\<close> is never called.
\<close>

record state =
  file_paths :: "path list"
  erase_method :: erase_method
  current_file_index :: nat
  last_progress_update :: rat
  total_size :: nat
  processed_size :: nat
  events :: "event list"
  fs :: fsys
  procs :: "process list"
  random :: rng
  clock :: "nat \<Rightarrow> rat"
  ticks :: nat
  oplog :: "action list"
  stop_at :: "nat option"
  polls :: nat

definition emit :: "event \<Rightarrow> state \<Rightarrow> state" where
  "emit e st = st\<lparr>events := events st @ [e]\<rparr>"

definition record_op :: "action \<Rightarrow> state \<Rightarrow> state" where
  "record_op a st = st\<lparr>oplog := oplog st @ [a]\<rparr>"

text \<open>A read of \<^verbatim>\<open>self._is_running\<close>.\<close>

definition is_running :: "state \<Rightarrow> bool \<times> state" where
  "is_running st =
     ((case stop_at st of None \<Rightarrow> True | Some k \<Rightarrow> polls st < k),
      st\<lparr>polls := polls st + 1\<rparr>)"

text \<open>\<^verbatim>\<open>time.time()\<close>\<close>

definition time_time :: "state \<Rightarrow> rat \<times> state" where
  "time_time st = (clock st (ticks st), st\<lparr>ticks := ticks st + 1\<rparr>)"

text \<open>\<^verbatim>\<open>self.update_interval = 0.5\<close> (line 137) and \<^verbatim>\<open>should_update_progress\<close>.\<close>

definition update_interval :: rat where
  "update_interval = 1 / 2"

definition should_update_progress :: "rat \<Rightarrow> state \<Rightarrow> bool \<times> state" where
  "should_update_progress current_time st =
     (if current_time - last_progress_update st \<ge> update_interval
      then (True, st\<lparr>last_progress_update := current_time\<rparr>)
      else (False, st))"

text \<open>
  \<^verbatim>\<open>int((self.processed_size / self.total_size) * 100)\<close>. The division raises
  \<^verbatim>\<open>ZeroDivisionError\<close> when the total is zero. Python computes the quotient in binary
  floating point; the model computes it exactly. The two agree when the quotient is
  exact, as when the two sizes are equal.
\<close>

definition total_percent :: "nat \<Rightarrow> nat \<Rightarrow> py_exn + int" where
  "total_percent processed tot =
     (if tot = 0 then Inl ZeroDivisionError else Inr (int (processed * 100 div tot)))"

subsection \<open>Locks\<close>

text \<open>\<^verbatim>\<open>str.lower()\<close> on ASCII letters.\<close>

definition lower :: "string \<Rightarrow> string" where
  "lower s =
     map (\<lambda>c. if 65 \<le> (of_char c :: nat) \<and> (of_char c :: nat) \<le> 90
               then char_of ((of_char c :: nat) + 32) else c) s"

text \<open>
  A file is locked while a living process holds it open (the sharing rule of
  Windows, the platform of the program). Paths are compared as line 86 does.
\<close>

definition holds :: "path \<Rightarrow> process \<Rightarrow> bool" where
  "holds p pr = (alive pr \<and> filter (\<lambda>f. map lower f = map lower p) (open_files pr) \<noteq> [])"

definition locked :: "state \<Rightarrow> path \<Rightarrow> bool" where
  "locked st p = (filter (holds p) (procs st) \<noteq> [])"

definition locked_below :: "state \<Rightarrow> path \<Rightarrow> bool" where
  "locked_below st d = (filter (\<lambda>q. prefix d q \<and> locked st q) (map fst (fs st)) \<noteq> [])"

subsection \<open>Operations on files\<close>

text \<open>\<^verbatim>\<open>is_valid_file_path\<close> (lines 45-55); nothing in its body raises in the model.\<close>

definition is_valid_file_path :: "fsys \<Rightarrow> path \<Rightarrow> bool" where
  "is_valid_file_path fsy file_path =
     (if isfile fsy file_path then os_access fsy file_path
      else if isdir fsy file_path then os_access fsy file_path
      else False)"

definition set_content :: "fsys \<Rightarrow> path \<Rightarrow> byte list \<Rightarrow> fsys" where
  "set_content fsy p c =
     map (\<lambda>(q, n). if q = p
                    then (q, (case n of File_node c0 r \<Rightarrow> File_node c r | Dir_node r \<Rightarrow> Dir_node r))
                    else (q, n)) fsy"

definition remove_entry :: "fsys \<Rightarrow> path \<Rightarrow> fsys" where
  "remove_entry fsy p = filter (\<lambda>(q, n). q \<noteq> p) fsy"

text \<open>
  \<^verbatim>\<open>open(path, 'wb')\<close> truncates the file, and creates it when it is missing and its
  directory exists; \<^verbatim>\<open>open(path, 'r+b')\<close> needs the file. Both raise on a directory,
  on a locked file and on a file the system refuses to open.
\<close>

datatype mode = Mode_wb | Mode_rwb

definition open_file :: "mode \<Rightarrow> path \<Rightarrow> state \<Rightarrow> py_exn option \<times> state" where
  "open_file m p st =
     (let st1 = record_op (case m of Mode_wb \<Rightarrow> Open_wb p | Mode_rwb \<Rightarrow> Open_rwb p) st in
      if isdir (fs st) p \<or> locked st p \<or> refuses (fs st) p Open then (Some OSError, st1)
      else if isfile (fs st) p
        then (None, (case m of Mode_wb \<Rightarrow> st1\<lparr>fs := set_content (fs st1) p []\<rparr> | Mode_rwb \<Rightarrow> st1))
      else if m = Mode_wb \<and> p \<noteq> [] \<and> isdir (fs st) (butlast p)
        then (None, st1\<lparr>fs := fs st1 @ [(p, File_node [] [])]\<rparr>)
      else (Some OSError, st1))"

text \<open>
  \<^verbatim>\<open>f.write(chunk)\<close> at position \<open>pos\<close> of the open file: the bytes replace what is
  there and extend the file past its end.
\<close>

definition f_write :: "path \<Rightarrow> nat \<Rightarrow> byte list \<Rightarrow> state \<Rightarrow> state" where
  "f_write p pos chunk st =
     (let st1 = record_op (Write p chunk) st in
      case map_of (fs st) p of
        Some (File_node c r) \<Rightarrow>
          st1\<lparr>fs := set_content (fs st1) p (take pos c @ chunk @ drop (pos + length chunk) c)\<rparr>
      | _ \<Rightarrow> st1)"

text \<open>\<^verbatim>\<open>os.remove(path)\<close>\<close>

definition os_remove :: "path \<Rightarrow> state \<Rightarrow> py_exn option \<times> state" where
  "os_remove p st =
     (let st1 = record_op (Remove p) st in
      if \<not> isfile (fs st) p \<or> locked st p \<or> refuses (fs st) p Unlink then (Some OSError, st1)
      else (None, st1\<lparr>fs := remove_entry (fs st1) p\<rparr>))"

text \<open>
  \<^verbatim>\<open>is_file_in_use\<close> (lines 67-77): \<^verbatim>\<open>open(file_path, 'a')\<close> succeeds, creating the
  file when it is missing, or raises; both handlers return \<^verbatim>\<open>True\<close>.
\<close>

definition is_file_in_use :: "path \<Rightarrow> state \<Rightarrow> bool \<times> state" where
  "is_file_in_use file_path st =
     (let st1 = record_op (Probe file_path) st in
      if isdir (fs st) file_path \<or> locked st file_path \<or> refuses (fs st) file_path Open
        then (True, st1)
      else if isfile (fs st) file_path then (False, st1)
      else if file_path \<noteq> [] \<and> isdir (fs st) (butlast file_path)
        then (False, st1\<lparr>fs := fs st1 @ [(file_path, File_node [] [])]\<rparr>)
      else (True, st1))"

text \<open>
  \<^verbatim>\<open>get_processes_using_file\<close> (lines 79-93). \<^verbatim>\<open>psutil.process_iter\<close> yields the living
  processes. A process is appended once for each of its open files that matches.
  \<^verbatim>\<open>NoSuchProcess\<close> and \<^verbatim>\<open>AccessDenied\<close> skip the process (line 88); any other
  exception reaches line 91 and the function returns the empty list. A process is
  returned as its index in the process table.
\<close>

fun gather_holders :: "path \<Rightarrow> nat \<Rightarrow> process list \<Rightarrow> py_exn + nat list" where
  "gather_holders file_path i [] = Inr []"
| "gather_holders file_path i (pr # rest) =
     (if \<not> alive pr then gather_holders file_path (i + 1) rest
      else (case inspect_error pr of
              Some e \<Rightarrow>
                (if e = NoSuchProcess \<or> e = AccessDenied
                 then gather_holders file_path (i + 1) rest
                 else Inl e)
            | None \<Rightarrow>
                (case gather_holders file_path (i + 1) rest of
                   Inl e \<Rightarrow> Inl e
                 | Inr processes \<Rightarrow>
                     Inr (map (\<lambda>f. i)
                            (filter (\<lambda>f. map lower f = map lower file_path) (open_files pr))
                          @ processes))))"

definition get_processes_using_file :: "path \<Rightarrow> state \<Rightarrow> nat list" where
  "get_processes_using_file file_path st =
     (case gather_holders file_path 0 (procs st) of Inl e \<Rightarrow> [] | Inr processes \<Rightarrow> processes)"

text \<open>
  Lines 258-262: \<^verbatim>\<open>terminate_process\<close> on each holder; its result only selects a
  log message.
\<close>

primrec terminate_all :: "nat list \<Rightarrow> state \<Rightarrow> state" where
  "terminate_all [] st = st"
| "terminate_all (i # rest) st =
     (if i < length (procs st)
      then (case terminate_process (procs st ! i) of
              (ok, p1, acts) \<Rightarrow>
                terminate_all rest (st\<lparr>procs := (procs st)[i := p1], oplog := oplog st @ acts\<rparr>))
      else terminate_all rest st)"

text \<open>Lines 253-264, the lock resolution of a directly selected file.\<close>

definition resolve_locks :: "path \<Rightarrow> state \<Rightarrow> state" where
  "resolve_locks file_path st =
     (case is_file_in_use file_path st of
        (in_use, st1) \<Rightarrow>
          if in_use
          then (let st2 = emit (File_status (In_use file_path)) st1;
                    processes = get_processes_using_file file_path st2
                in if processes \<noteq> [] then terminate_all processes st2 else st2)
          else st1)"

subsection \<open>Operations on directories\<close>

text \<open>\<^verbatim>\<open>os.rmdir\<close> removes an empty directory and raises otherwise.\<close>

definition os_rmdir :: "path \<Rightarrow> state \<Rightarrow> py_exn option \<times> state" where
  "os_rmdir d st =
     (let st1 = record_op (Rmdir d) st in
      if \<not> isdir (fs st) d \<or> listdir (fs st) d \<noteq> [] \<or> refuses (fs st) d Unlink
        then (Some OSError, st1)
      else (None, st1\<lparr>fs := remove_entry (fs st1) d\<rparr>))"

text \<open>Moving the tree at \<open>d\<close> to the new path \<open>t\<close>.\<close>

definition reroot :: "fsys \<Rightarrow> path \<Rightarrow> path \<Rightarrow> fsys" where
  "reroot fsy d t =
     map (\<lambda>(q, n). if prefix d q then (t @ drop (length d) q, n) else (q, n)) fsy"

text \<open>
  \<^verbatim>\<open>os.rename(d, t)\<close> raises when \<open>d\<close> is missing, when \<open>t\<close> exists, when a file below
  \<open>d\<close> is locked and when the system refuses it.
\<close>

definition os_rename :: "path \<Rightarrow> path \<Rightarrow> state \<Rightarrow> py_exn option \<times> state" where
  "os_rename d t st =
     (let st1 = record_op (Rename d t) st in
      if \<not> exists_path (fs st) d \<or> exists_path (fs st) t \<or> locked_below st d
           \<or> refuses (fs st) d Rename_op
        then (Some OSError, st1)
      else (None, st1\<lparr>fs := reroot (fs st1) d t\<rparr>))"

text \<open>
  \<^verbatim>\<open>shutil.move(d, t)\<close> moves \<open>d\<close> into \<open>t\<close> when \<open>t\<close> is an existing directory, and to
  \<open>t\<close> otherwise; it raises when the place it moves to is taken. The library
  copies the tree and then removes the source when \<^verbatim>\<open>os.rename\<close> fails; the model
  leaves this out: a move that raises leaves the file system as it was.
\<close>

definition shutil_move :: "path \<Rightarrow> path \<Rightarrow> state \<Rightarrow> py_exn option \<times> state" where
  "shutil_move d t st =
     (let st1 = record_op (Move d t) st;
          real_dst = (if isdir (fs st) t \<and> d \<noteq> [] then t @ [last d] else t)
      in if \<not> exists_path (fs st) d \<or> exists_path (fs st) real_dst \<or> locked_below st d
              \<or> refuses (fs st) d Move_op
           then (Some OSError, st1)
         else (None, st1\<lparr>fs := reroot (fs st1) d real_dst\<rparr>))"

text \<open>
  Removing a tree as far as possible: an entry below \<open>d\<close> stays when it is stuck or
  when a stuck entry lies below it.
\<close>

definition prune :: "(path \<Rightarrow> bool) \<Rightarrow> fsys \<Rightarrow> path \<Rightarrow> fsys" where
  "prune stuck fsy d =
     filter (\<lambda>(q, n). \<not> prefix d q
                      \<or> filter (\<lambda>s. prefix d s \<and> stuck s \<and> prefix q s) (map fst fsy) \<noteq> []) fsy"

text \<open>
  \<^verbatim>\<open>shutil.rmtree(folder, ignore_errors=True)\<close> never raises. It cannot remove a
  locked file or an entry that refuses \<open>Unlink\<close>.
\<close>

definition shutil_rmtree :: "path \<Rightarrow> state \<Rightarrow> state" where
  "shutil_rmtree d st =
     (let st1 = record_op (Rmtree d) st in
      st1\<lparr>fs := prune (\<lambda>s. locked st s \<or> refuses (fs st) s Unlink) (fs st1) d\<rparr>)"

text \<open>
  \<^verbatim>\<open>subprocess.run\<close> of \<^verbatim>\<open>rmdir /s /q "folder"\<close> or \<^verbatim>\<open>rm -rf "folder"\<close> (lines 355-361).
  The command cannot remove a locked file or an entry that refuses \<open>Shell_op\<close>; its
  return code is zero when the folder is gone.
\<close>

definition shell_rm :: "path \<Rightarrow> state \<Rightarrow> int \<times> state" where
  "shell_rm d st =
     (let st1 = record_op (Shell_rm d) st;
          st2 = st1\<lparr>fs := prune (\<lambda>s. locked st s \<or> refuses (fs st) s Shell_op) (fs st1) d\<rparr>
      in (if exists_path (fs st2) d then 1 else 0, st2))"

text \<open>
  \<^verbatim>\<open>''.join(random.choices(string.ascii_letters + string.digits, k=8))\<close>: each of the
  \<open>k\<close> characters is picked by one output of the generator.
\<close>

definition alphabet :: string where
  "alphabet = ''abcdefghijklmnopqrstuvwxyzABCDEFGHIJKLMNOPQRSTUVWXYZ0123456789''"

definition random_choices :: "nat \<Rightarrow> rng \<Rightarrow> string \<times> rng" where
  "random_choices k g =
     (map (\<lambda>i. alphabet ! (draws g (cursor g + i) mod length alphabet)) [0..<k],
      g\<lparr>cursor := cursor g + k\<rparr>)"

subsection \<open>\<^verbatim>\<open>EraseThread.run\<close>: removing the folders (lines 298-373)\<close>

text \<open>
  Lines 341-370, entered with \<^verbatim>\<open>folder\<close> already set to the renamed path
  (lines 328, 335). The \<^verbatim>\<open>raise\<close> of line 367 is caught at line 368.
\<close>

definition delete_renamed :: "path \<Rightarrow> state \<Rightarrow> state" where
  "delete_renamed folder st =
     (let st1 = shutil_rmtree folder st in
      if \<not> exists_path (fs st1) folder then emit (Folder_deleted folder) st1
      else (case shell_rm folder st1 of
              (returncode, st2) \<Rightarrow>
                if returncode = 0 \<and> \<not> exists_path (fs st2) folder
                then emit (Folder_deleted folder) st2
                else emit (Error (Delete_folder_failed folder)) st2))"

text \<open>
  One iteration of the loop of line 300. No operation between lines 302 and 370
  raises outside the inner handlers, so the handler of line 371 has no branch.
\<close>

definition remove_folder :: "path \<Rightarrow> state \<Rightarrow> state" where
  "remove_folder folder st =
     (if \<not> exists_path (fs st) folder then st
      else (case os_rmdir folder (emit (File_status (Processing_folder folder)) st) of
              (None, st1) \<Rightarrow> emit (Folder_deleted folder) st1
            | (Some e, st1) \<Rightarrow>
                (case random_choices 8 (random st1) of
                   (random_name, g) \<Rightarrow>
                     (let folder_dir = butlast folder;
                          temp_folder = folder_dir @ [random_name]
                      in case os_rename folder temp_folder (st1\<lparr>random := g\<rparr>) of
                           (None, st2) \<Rightarrow> delete_renamed temp_folder st2
                         | (Some e1, st2) \<Rightarrow>
                             (case shutil_move folder temp_folder st2 of
                                (None, st3) \<Rightarrow> delete_renamed temp_folder st3
                              | (Some e2, st3) \<Rightarrow> st3)))))"

text \<open>
  \<^verbatim>\<open>folders_to_delete\<close> is a Python set, whose iteration order is not specified. The
  model keeps it as a list without repetitions and iterates in insertion order.
\<close>

definition set_add :: "path \<Rightarrow> path list \<Rightarrow> path list" where
  "set_add x xs = (if x \<in> set xs then xs else xs @ [x])"

primrec remove_folders :: "path list \<Rightarrow> state \<Rightarrow> state" where
  "remove_folders [] st = st"
| "remove_folders (folder # rest) st = remove_folders rest (remove_folder folder st)"

subsection \<open>\<^verbatim>\<open>EraseThread.run\<close>: overwriting a file\<close>

text \<open>Lines 225-226, 228-229 and 286-287: compute the percentage and emit it.\<close>

definition emit_progress :: "state \<Rightarrow> py_exn option \<times> state" where
  "emit_progress st =
     (case total_percent (processed_size st) (total_size st) of
        Inl e \<Rightarrow> (Some e, st)
      | Inr pct \<Rightarrow> (None, emit (Progress pct) st))"

text \<open>Lines 223-226 and 282-285.\<close>

definition timed_progress :: "state \<Rightarrow> py_exn option \<times> state" where
  "timed_progress st =
     (case time_time st of
        (current_time, st1) \<Rightarrow>
          (case should_update_progress current_time st1 of
             (update, st2) \<Rightarrow> if update then emit_progress st2 else (None, st2)))"

text \<open>
  The loop \<^verbatim>\<open>while written < file_size\<close> (lines 215-226 and 274-285) on the open
  file \<open>p\<close>, whose write position is \<open>pos\<close>.
\<close>

function write_chunks ::
  "path \<Rightarrow> byte list \<Rightarrow> nat \<Rightarrow> nat \<Rightarrow> nat \<Rightarrow> state \<Rightarrow> outcome \<times> state" where
  "write_chunks p pattern file_size written pos st =
     (if written < file_size then
        (case is_running st of
           (running, st1) \<Rightarrow>
             if \<not> running then (Returned, st1)
             else
               (let chunk_size = min CHUNK_SIZE (file_size - written);
                    chunk = generate_pattern pattern (int chunk_size);
                    st2 = f_write p pos chunk st1;
                    st3 = st2\<lparr>processed_size := processed_size st2 + chunk_size\<rparr>
                in case timed_progress st3 of
                     (Some e, st4) \<Rightarrow> (Raised e, st4)
                   | (None, st4) \<Rightarrow>
                       write_chunks p pattern file_size (written + chunk_size)
                         (pos + length chunk) st4))
      else (Done, st))"
  by pat_completeness auto
termination
  by (relation "measure (\<lambda>(p, pattern, file_size, written, pos, st). file_size - written)")
     (auto simp: CHUNK_SIZE_def)

text \<open>
  The loop \<^verbatim>\<open>for i, pattern in enumerate(passes)\<close> (lines 210-229 and 269-287). The
  file is closed when the \<^verbatim>\<open>with\<close> block is left, also by \<^verbatim>\<open>return\<close> or an exception.
\<close>

fun overwrite_passes ::
  "path \<Rightarrow> nat \<Rightarrow> nat \<Rightarrow> byte list list \<Rightarrow> state \<Rightarrow> outcome \<times> state" where
  "overwrite_passes p file_size i [] st = (Done, st)"
| "overwrite_passes p file_size i (pattern # rest) st =
     (case is_running st of
        (running, st1) \<Rightarrow>
          if \<not> running then (Returned, st1)
          else
            (case open_file (if i > 0 then Mode_rwb else Mode_wb) p st1 of
               (Some e, st2) \<Rightarrow> (Raised e, st2)
             | (None, st2) \<Rightarrow>
                 (case write_chunks p pattern file_size 0 0 st2 of
                    (Done, st3) \<Rightarrow>
                      (case emit_progress st3 of
                         (Some e, st4) \<Rightarrow> (Raised e, st4)
                       | (None, st4) \<Rightarrow> overwrite_passes p file_size (i + 1) rest st4)
                  | (Returned, st3) \<Rightarrow> (Returned, st3)
                  | (Raised e, st3) \<Rightarrow> (Raised e, st3))))"

text \<open>
  The \<^verbatim>\<open>try\<close> statement of lines 207-239, repeated word for word at lines 266-296:
  size, passes, overwriting, removal. An exception of the removal gives the error of
  lines 236 and 293, any other one the error of lines 239 and 296; neither ends the
  batch.
\<close>

definition shred_file :: "path \<Rightarrow> state \<Rightarrow> outcome \<times> state" where
  "shred_file p st =
     (case getsize (fs st) p of
        Inl e \<Rightarrow> (Done, emit (Error (Process_file_failed p)) st)
      | Inr file_size \<Rightarrow>
          (case get_passes (erase_method st) (random st) of
             (passes, g) \<Rightarrow>
               (case overwrite_passes p file_size 0 passes (st\<lparr>random := g\<rparr>) of
                  (Returned, st1) \<Rightarrow> (Returned, st1)
                | (Raised e, st1) \<Rightarrow> (Done, emit (Error (Process_file_failed p)) st1)
                | (Done, st1) \<Rightarrow>
                    (case os_remove p st1 of
                       (Some e, st2) \<Rightarrow> (Done, emit (Error (Delete_file_failed p)) st2)
                     | (None, st2) \<Rightarrow> (Done, st2)))))"

subsection \<open>\<^verbatim>\<open>EraseThread.run\<close>: the files of a selected directory (lines 196-246)\<close>

text \<open>The loop \<^verbatim>\<open>for file in files\<close> of lines 199-239.\<close>

fun shred_files :: "path \<Rightarrow> string list \<Rightarrow> state \<Rightarrow> outcome \<times> state" where
  "shred_files root_dir [] st = (Done, st)"
| "shred_files root_dir (file # rest) st =
     (let full_path = root_dir @ [file] in
      if \<not> is_valid_file_path (fs st) full_path then shred_files root_dir rest st
      else
        (case shred_file full_path (emit (File_status (Shredding full_path)) st) of
           (Done, st1) \<Rightarrow> shred_files root_dir rest st1
         | (Returned, st1) \<Rightarrow> (Returned, st1)
         | (Raised e, st1) \<Rightarrow> (Raised e, st1)))"

text \<open>The loop \<^verbatim>\<open>for dir_name in dirs\<close> of lines 242-246.\<close>

fun add_subfolders :: "fsys \<Rightarrow> path \<Rightarrow> string list \<Rightarrow> path list \<Rightarrow> path list" where
  "add_subfolders fsy root_dir [] folders_to_delete = folders_to_delete"
| "add_subfolders fsy root_dir (dir_name # rest) folders_to_delete =
     (let dir_path = root_dir @ [dir_name] in
      if exists_path fsy dir_path
      then add_subfolders fsy root_dir rest (set_add dir_path folders_to_delete)
      else add_subfolders fsy root_dir rest folders_to_delete)"

text \<open>The loop over the triples of \<^verbatim>\<open>os.walk(file_path, topdown=False)\<close>, line 197.\<close>

fun shred_walk ::
  "(path \<times> string list \<times> string list) list \<Rightarrow> path list \<Rightarrow> state
     \<Rightarrow> outcome \<times> path list \<times> state" where
  "shred_walk [] folders_to_delete st = (Done, folders_to_delete, st)"
| "shred_walk ((root_dir, dirs, files) # rest) folders_to_delete st =
     (case shred_files root_dir files st of
        (Done, st1) \<Rightarrow>
          shred_walk rest (add_subfolders (fs st1) root_dir dirs folders_to_delete) st1
      | (Returned, st1) \<Rightarrow> (Returned, folders_to_delete, st1)
      | (Raised e, st1) \<Rightarrow> (Raised e, folders_to_delete, st1))"

subsection \<open>\<^verbatim>\<open>EraseThread.run\<close>: the batch\<close>

text \<open>The loop \<^verbatim>\<open>for idx, file_path in enumerate(self.file_paths)\<close>, lines 180-296.\<close>

fun process_paths ::
  "nat \<Rightarrow> path list \<Rightarrow> path list \<Rightarrow> state \<Rightarrow> outcome \<times> path list \<times> state" where
  "process_paths idx [] folders_to_delete st = (Done, folders_to_delete, st)"
| "process_paths idx (file_path # rest) folders_to_delete st =
     (case is_running st of
        (running, st1) \<Rightarrow>
          if \<not> running then (Returned, folders_to_delete, emit (Error Cancelled) st1)
          else
            (let st2 = st1\<lparr>current_file_index := idx\<rparr> in
             if \<not> is_valid_file_path (fs st2) file_path
               then process_paths (idx + 1) rest folders_to_delete st2
             else if isdir (fs st2) file_path then
               (case shred_walk (walk_up (fs st2) file_path)
                       (set_add file_path folders_to_delete) st2 of
                  (Done, folders1, st3) \<Rightarrow> process_paths (idx + 1) rest folders1 st3
                | (Returned, folders1, st3) \<Rightarrow> (Returned, folders1, st3)
                | (Raised e, folders1, st3) \<Rightarrow> (Raised e, folders1, st3))
             else
               (case shred_file file_path
                       (resolve_locks file_path
                          (emit (File_status (Shredding file_path)) st2)) of
                  (Done, st3) \<Rightarrow> process_paths (idx + 1) rest folders_to_delete st3
                | (Returned, st3) \<Rightarrow> (Returned, folders_to_delete, st3)
                | (Raised e, st3) \<Rightarrow> (Raised e, folders_to_delete, st3))))"

text \<open>The sizing loops of lines 162-171.\<close>

primrec add_sizes :: "fsys \<Rightarrow> path list \<Rightarrow> nat \<Rightarrow> py_exn + nat" where
  "add_sizes fsy [] acc = Inr acc"
| "add_sizes fsy (fp # rest) acc =
     (if exists_path fsy fp
      then (case getsize fsy fp of
              Inl e \<Rightarrow> Inl e
            | Inr n \<Rightarrow> add_sizes fsy rest (acc + n))
      else add_sizes fsy rest acc)"

definition walked_files :: "fsys \<Rightarrow> path \<Rightarrow> path list" where
  "walked_files fsy d =
     concat (map (\<lambda>(dirpath, ds, fns). map (\<lambda>f. dirpath @ [f]) fns) (walk_down fsy d))"

primrec compute_total :: "fsys \<Rightarrow> path list \<Rightarrow> nat \<Rightarrow> py_exn + nat" where
  "compute_total fsy [] acc = Inr acc"
| "compute_total fsy (p # rest) acc =
     (if isfile fsy p
      then (case getsize fsy p of
              Inl e \<Rightarrow> Inl e
            | Inr n \<Rightarrow> compute_total fsy rest (acc + n))
      else if isdir fsy p
      then (case add_sizes fsy (walked_files fsy p) acc of
              Inl e \<Rightarrow> Inl e
            | Inr acc1 \<Rightarrow> compute_total fsy rest acc1)
      else compute_total fsy rest acc)"

text \<open>
  \<^verbatim>\<open>EraseThread.__init__\<close> (lines 129-142) in the surroundings \<open>env\<close>: the paths are
  filtered, the counters start at zero, and the error of line 141 is emitted when no
  path is left.
\<close>

definition init :: "path list \<Rightarrow> erase_method \<Rightarrow> state \<Rightarrow> state" where
  "init paths m env =
     (let valid = filter (is_valid_file_path (fs env)) paths in
      env\<lparr>file_paths := valid,
          erase_method := m,
          current_file_index := 0,
          last_progress_update := 0,
          total_size := 0,
          processed_size := 0,
          events := (if valid = [] then [Error No_valid_files] else [])\<rparr>)"

text \<open>
  Lines 298-376, after the loop over the paths: every recorded folder is removed,
  then the flag is read once and \<^verbatim>\<open>finished\<close> is emitted when it is still true.
\<close>

definition finish_batch :: "path list \<Rightarrow> state \<Rightarrow> state" where
  "finish_batch folders_to_delete st =
     (case is_running (remove_folders folders_to_delete st) of
        (running, st1) \<Rightarrow> if running then emit Finished st1 else st1)"

text \<open>
  \<^verbatim>\<open>EraseThread.run\<close> (lines 154-380). An exception that reaches line 377 gives the
  error of line 380.
\<close>

definition run :: "state \<Rightarrow> state" where
  "run st =
     (let total_files = length (file_paths st) in
      if total_files = 0 then emit (Error No_valid_files) st
      else
        (case compute_total (fs st) (file_paths st) 0 of
           Inl e \<Rightarrow> emit (Error (Run_failed e)) st
         | Inr total_bytes \<Rightarrow>
             (case process_paths 0 (file_paths st) []
                     (st\<lparr>total_size := total_bytes, processed_size := 0\<rparr>) of
                (Returned, folders_to_delete, st1) \<Rightarrow> st1
              | (Raised e, folders_to_delete, st1) \<Rightarrow> emit (Error (Run_failed e)) st1
              | (Done, folders_to_delete, st1) \<Rightarrow> finish_batch folders_to_delete st1)))"

declare walk_up.simps [simp del] walk_down.simps [simp del] write_chunks.simps [simp del]

subsection \<open>Example batches\<close>

text \<open>
  Surroundings with an empty file system and no process: the generator outputs
  0, 1, 2, ..., the clock starts at 1700000000 seconds and advances by one second
  per reading, and \<^verbatim>\<open>stop()\<close> is never called.
\<close>

definition env0 :: state where
  "env0 =
     \<lparr>file_paths = [], erase_method = Other_label, current_file_index = 0,
      last_progress_update = 0, total_size = 0, processed_size = 0, events = [],
      fs = [], procs = [], random = \<lparr>draws = (\<lambda>i. i), cursor = 0\<rparr>,
      clock = (\<lambda>k. 1700000000 + of_nat k), ticks = 0, oplog = [],
      stop_at = None, polls = 0\<rparr>"

text \<open>A batch of one file of 2048 bytes under the single-pass standard.\<close>

definition batch_2048 :: state where
  "batch_2048 =
     init [[''data.bin'']] Other_label
       (env0\<lparr>fs := [([''data.bin''], File_node (replicate 2048 0x41) [])]\<rparr>)"

text \<open>
  The batch of the 2048-byte file when \<^verbatim>\<open>stop()\<close> is called after the third read of
  the flag, that is, after the last chunk was written.
\<close>

definition batch_2048_late_stop :: state where
  "batch_2048_late_stop = batch_2048\<lparr>stop_at := Some 3\<rparr>"

text \<open>
  The random pass of the three-pass standard on a file of 131072 bytes, which is two
  chunks: \<open>drawn_buffer\<close> is the seventh buffer that \<^verbatim>\<open>get_passes\<close> returns, and
  \<open>two_chunk_env\<close> the state in which that pass is written, the file just opened
  and the generator as \<^verbatim>\<open>get_passes\<close> left it.
\<close>

definition drawn_buffer :: "byte list" where
  "drawn_buffer = last (fst (get_passes DoD_5220_22_M (random env0)))"

definition two_chunk_env :: state where
  "two_chunk_env =
     env0\<lparr>fs := [([''big.bin''], File_node [] [])], total_size := 131072,
           erase_method := DoD_5220_22_M,
           random := snd (get_passes DoD_5220_22_M (random env0))\<rparr>"

text \<open>
  A directory with one file that is not accessible, so that the batch skips the
  file and the directory is not empty when it is to be removed.
\<close>

definition residual_env :: state where
  "residual_env =
     env0\<lparr>fs := [([''docs''], Dir_node []),
                  ([''docs'', ''keep.txt''], File_node [0x61] [Access])]\<rparr>"

definition batch_residual :: state where
  "batch_residual = init [[''docs'']] Other_label residual_env"


text \<open>
  A file of 131072 bytes, which is two chunks, to be destroyed under the three-pass
  label: seven passes, fourteen chunks.
\<close>

definition big_file_env :: state where
  "big_file_env =
     env0\<lparr>fs := [([''big.bin''], File_node (replicate 131072 0x41) [])],
           erase_method := DoD_5220_22_M\<rparr>"

text \<open>A batch of one empty file.\<close>

definition batch_empty_file :: state where
  "batch_empty_file =
     init [[''e.bin'']] Other_label (env0\<lparr>fs := [([''e.bin''], File_node [] [])]\<rparr>)"

text \<open>A batch of one empty directory.\<close>

definition batch_empty_dir :: state where
  "batch_empty_dir = init [[''empty'']] Other_label (env0\<lparr>fs := [([''empty''], Dir_node [])]\<rparr>)"

text \<open>A batch whose only path does not exist.\<close>

definition batch_no_valid :: state where
  "batch_no_valid = init [[''missing'']] Other_label env0"

text \<open>
  A process that holds \<^verbatim>\<open>docs/a.txt\<close> open and exits when it is asked to, and a batch
  of the directory \<^verbatim>\<open>docs\<close> that contains this one file of three bytes.
\<close>

definition editor :: process where
  "editor =
     \<lparr>pid = 4321, pname = ''editor'', open_files = [[''docs'', ''a.txt'']],
      inspect_error = None, alive = True, heeds_terminate = True, protected = False\<rparr>"

definition batch_nested_locked :: state where
  "batch_nested_locked =
     init [[''docs'']] Other_label
       (env0\<lparr>fs := [([''docs''], Dir_node []),
                      ([''docs'', ''a.txt''], File_node [0x61, 0x62, 0x63] [])],
             procs := [editor]\<rparr>)"

text \<open>The same file selected directly.\<close>

definition batch_direct_locked :: state where
  "batch_direct_locked =
     init [[''docs'', ''a.txt'']] Other_label
       (env0\<lparr>fs := [([''docs''], Dir_node []),
                      ([''docs'', ''a.txt''], File_node [0x61, 0x62, 0x63] [])],
             procs := [editor]\<rparr>)"

text \<open>A running process that does not exit when it is asked to terminate.\<close>

definition stubborn :: process where
  "stubborn =
     \<lparr>pid = 77, pname = ''daemon'', open_files = [[''docs'', ''a.txt'']],
      inspect_error = None, alive = True, heeds_terminate = False, protected = False\<rparr>"


subsection \<open>Relations between the states of a run\<close>

text \<open>
  Two relations between a state and a later one, used to follow the flag and the
  \<^verbatim>\<open>finished\<close> signal through the loops. \<open>quiet\<close>: the schedule of \<^verbatim>\<open>stop()\<close> is the
  same and no \<^verbatim>\<open>finished\<close> signal was added. \<open>folder_step\<close>: moreover the flag was
  not read.
\<close>

definition quiet :: "state \<Rightarrow> state \<Rightarrow> bool" where
  "quiet st st' =
     (stop_at st' = stop_at st \<and> (Finished \<in> set (events st')) = (Finished \<in> set (events st)))"

definition folder_step :: "state \<Rightarrow> state \<Rightarrow> bool" where
  "folder_step st st' =
     (stop_at st' = stop_at st \<and> polls st' = polls st
      \<and> (Finished \<in> set (events st')) = (Finished \<in> set (events st)))"

subsection \<open>The removal ladder\<close>


section \<open>Properties\<close>

subsection \<open>The pattern buffers\<close>

lemma random_bytes_length: "length (fst (random_bytes n g)) = n"
  by (induction n arbitrary: g) (simp_all add: randint_0_255_def split_beta)

lemma random_bytes_cursor: "cursor (snd (random_bytes n g)) = cursor g + n"
  by (induction n arbitrary: g) (simp_all add: randint_0_255_def split_beta)

lemma random_buffers_length: "length (fst (random_buffers k g)) = k"
  by (induction k arbitrary: g) (simp_all add: split_beta)

lemma length_generate_pattern:
  "length (generate_pattern pattern (int n)) = min n (length pattern)"
  by (simp add: generate_pattern_def)

lemma get_passes_DoD_5220_22_M:
  "fst (get_passes DoD_5220_22_M g) =
     [fill 0x00, fill 0x01, fill 0x00, fill 0x01, fill 0x00, fill 0x01, fst (random_bytes 1024 g)]"
  by (simp add: get_passes_def split_beta)

lemma get_passes_DoD_5220_22_M_ECE:
  "fst (get_passes DoD_5220_22_M_ECE g) =
     [fill 0x00, fill 0xFF, fst (random_bytes 1024 g), fill 0x00, fill 0xFF,
      fst (random_bytes 1024 (snd (random_bytes 1024 g))), fill 0x00]"
  by (simp add: get_passes_def split_beta)

lemma get_passes_German_VSITR:
  "fst (get_passes German_VSITR g) = fst (get_passes DoD_5220_22_M_ECE g)"
  by (simp add: get_passes_def split_beta)

lemma get_passes_Other_label: "get_passes Other_label g = ([fill 0x00], g)"
  by (simp add: get_passes_def)

text \<open>
  Claim C4. The claim gives, for every standard, the number and the order of the
  passes, and for the Gutmann standard exactly 35 of them, fifteen with fixed fill
  bytes. The tables of the other standards are as the four lemmas above say (the
  second byte of the three-pass table is \<open>0x01\<close>). For the Gutmann standard the loop
  of line 434 appends one pass for each of the 120 entries of \<^verbatim>\<open>special_patterns\<close>,
  not one for each of its fifteen rows, so the list has 4 + 2 + 4 + 120 + 6 + 4 =
  140 passes, and passes 11 to 130 are the 120 fixed ones.
\<close>

theorem get_passes_Gutmann_140:
  "length (fst (get_passes Gutmann g)) = 140
   \<and> take 120 (drop 10 (fst (get_passes Gutmann g))) = map fill special_patterns
   \<and> length special_patterns = 120"
  by (simp add: get_passes_def split_beta random_buffers_length special_patterns_def)

text \<open>
  Claim C1. The claim says that a pattern materialized for a chunk of \<open>N\<close> bytes has
  exactly \<open>N\<close> bytes, in particular for the nominal chunk size. Every pattern is a
  buffer of 1024 bytes and \<^verbatim>\<open>generate_pattern\<close> slices it, so for the chunk size of
  65536 bytes it returns 1024 bytes.
\<close>

theorem generate_pattern_nominal_chunk:
  "CHUNK_SIZE = 65536 \<and> length (generate_pattern (fill b) (int CHUNK_SIZE)) = 1024"
  by (simp add: generate_pattern_def fill_def CHUNK_SIZE_def)

subsection \<open>Terminating a process\<close>

text \<open>
  Claim C7. The claim says that \<^verbatim>\<open>terminate_process\<close> escalates to a forceful kill
  when the process is still running after the wait, and returns true exactly when
  the process is stopped. On a running process that does not exit in time, the wait
  raises \<^verbatim>\<open>TimeoutExpired\<close>; the handler of line 104 catches it, line 102 is not
  reached, and the function returns false with the process still alive: the calls
  made are \<^verbatim>\<open>terminate\<close> and \<^verbatim>\<open>wait\<close> only.
\<close>

theorem terminate_process_stubborn:
  "terminate_process stubborn = (False, stubborn, [Terminate 77, Wait 77])
   \<and> alive stubborn"
  by (simp add: terminate_process_def proc_is_running_def proc_terminate_def proc_wait_def
      stubborn_def)

lemma terminate_process_gone:
  "terminate_process (stubborn\<lparr>alive := False\<rparr>) = (False, stubborn\<lparr>alive := False\<rparr>, [])"
  by (simp add: terminate_process_def proc_is_running_def)

subsection \<open>Runs of the example batches\<close>

lemmas run_defs =
  env0_def init_def is_valid_file_path_def isfile_def isdir_def os_access_def exists_path_def
  refuses_def run_def finish_batch_def Let_def getsize_def emit_def record_op_def
  is_running_def resolve_locks_def is_file_in_use_def locked_def shred_file_def
  get_passes_def open_file_def set_content_def CHUNK_SIZE_def generate_pattern_def
  f_write_def timed_progress_def time_time_def should_update_progress_def
  update_interval_def emit_progress_def total_percent_def os_remove_def remove_entry_def
  fill_def write_chunks.simps walk_up.simps walk_down.simps walked_files_def subdirs_def
  filenames_def listdir_def set_add_def remove_folder_def os_rmdir_def holds_def lower_def
  locked_below_def os_rename_def shutil_move_def random_choices_def alphabet_def
  delete_renamed_def shutil_rmtree_def shell_rm_def prune_def reroot_def
  get_processes_using_file_def terminate_process_def proc_is_running_def
  proc_terminate_def proc_wait_def proc_kill_def

text \<open>
  Claim C2. The claim says that a file of \<open>S\<close> bytes destroyed with \<open>P\<close> passes
  receives \<open>P \<times> S\<close> written bytes, and that the batch of one file of 2048 bytes
  under the single-pass standard makes one write of 2048 zero bytes, deletes the
  file and emits \<^verbatim>\<open>finished()\<close> with a single \<^verbatim>\<open>progress(100)\<close>. The run of that batch
  makes one write of 1024 zero bytes, deletes the file, and emits \<^verbatim>\<open>progress(100)\<close>
  twice (line 285 for the chunk, as the first clock reading is more than half a
  second after the initial \<^verbatim>\<open>last_progress_update = 0\<close>, and line 287 for the pass).
\<close>

theorem run_batch_2048:
  "oplog (run batch_2048) =
     [Probe [''data.bin''], Open_wb [''data.bin''],
      Write [''data.bin''] (replicate 1024 0), Remove [''data.bin'']]
   \<and> events (run batch_2048) =
     [File_status (Shredding [''data.bin'']), Progress 100, Progress 100, Finished]
   \<and> fs (run batch_2048) = []"
  by (simp add: run_defs batch_2048_def)

text \<open>
  Claim C5, as stated: a batch whose total byte volume is zero ends with a fatal
  error before any destructive action. The batch of one empty directory has a total
  of zero bytes; its run removes the directory and emits \<^verbatim>\<open>folder_deleted\<close> and
  \<^verbatim>\<open>finished\<close>, and no error.
\<close>

theorem run_batch_empty_dir:
  "compute_total (fs batch_empty_dir) (file_paths batch_empty_dir) 0 = Inr 0
   \<and> oplog (run batch_empty_dir) = [Rmdir [''empty'']]
   \<and> events (run batch_empty_dir) =
       [File_status (Processing_folder [''empty'']), Folder_deleted [''empty''], Finished]
   \<and> fs (run batch_empty_dir) = []"
  by (simp add: run_defs batch_empty_dir_def)

lemma isdir_not_isfile: "isdir fsy d \<Longrightarrow> \<not> isfile fsy d"
  by (auto simp: isdir_def isfile_def split: option.splits node.splits)
lemma isdir_exists: "isdir fsy d \<Longrightarrow> exists_path fsy d"
  by (auto simp: isdir_def exists_path_def split: option.splits)

lemma walk_empty_dir:
  assumes "isdir fsy d" and "listdir fsy d = []"
  shows "walk_up fsy d = [(d, [], [])]" and "walk_down fsy d = [(d, [], [])]"
  using assms by (simp_all add: walk_up.simps [of fsy d] walk_down.simps [of fsy d] subdirs_def filenames_def)

text \<open>
  Claim C5, amended: a batch without a valid path ends at once with the error
  "no valid files", before any operation. The total byte volume is not what is
  tested: the batch of one accessible, empty directory has a total of zero bytes and
  is carried out, the directory is removed by \<^verbatim>\<open>os.rmdir\<close> and \<^verbatim>\<open>folder_deleted\<close> and
  \<^verbatim>\<open>finished\<close> are emitted.
\<close>

theorem run_fatal_without_paths_not_without_bytes:
  assumes none: "file_paths st0 = []"
    and one: "file_paths st = [d]"
    and dir: "isdir (fs st) d"
    and acc: "os_access (fs st) d"
    and empty: "listdir (fs st) d = []"
    and removable: "\<not> refuses (fs st) d Unlink"
    and never: "stop_at st = None"
  shows "run st0 = emit (Error No_valid_files) st0
       \<and> compute_total (fs st) (file_paths st) 0 = Inr 0
       \<and> events (run st) = events st @ [File_status (Processing_folder d), Folder_deleted d, Finished]
       \<and> oplog (run st) = oplog st @ [Rmdir d]
       \<and> fs (run st) = remove_entry (fs st) d"
proof -
  note nf = isdir_not_isfile [OF dir] and ex = isdir_exists [OF dir]
  note w = walk_empty_dir [OF dir empty]
  have a: "run st0 = emit (Error No_valid_files) st0"
    using none by (simp add: run_def)
  have t: "compute_total (fs st) (file_paths st) 0 = Inr 0"
    using one dir nf w by (simp add: walked_files_def)
  define s1 where "s1 = st\<lparr>total_size := 0, processed_size := 0, polls := polls st + 1, current_file_index := 0\<rparr>"
  have p: "process_paths 0 [d] [] (st\<lparr>total_size := 0, processed_size := 0\<rparr>) = (Done, [d], s1)"
    using dir nf acc w never
    by (simp add: is_running_def is_valid_file_path_def set_add_def s1_def)
  have f1: "fs s1 = fs st" "events s1 = events st" "oplog s1 = oplog st" "stop_at s1 = None"
    using never by (simp_all add: s1_def)
  have rf: "remove_folder d s1 =
      emit (Folder_deleted d)
        ((record_op (Rmdir d) (emit (File_status (Processing_folder d)) s1))
           \<lparr>fs := remove_entry (fs st) d\<rparr>)"
    using dir ex empty removable f1
    by (simp add: remove_folder_def os_rmdir_def Let_def emit_def record_op_def)
  have r: "run st = finish_batch [d] s1"
    using one t p by (simp add: run_def)
  have "events (run st) = events st @ [File_status (Processing_folder d), Folder_deleted d, Finished]
       \<and> oplog (run st) = oplog st @ [Rmdir d]
       \<and> fs (run st) = remove_entry (fs st) d"
    unfolding r using rf f1
    by (simp add: finish_batch_def is_running_def emit_def record_op_def)
  then show ?thesis using a t by simp
qed

theorem run_fatal_without_paths_not_without_bytes_witness:
  "file_paths batch_no_valid = []
   \<and> file_paths batch_empty_dir = [[''empty'']]
   \<and> isdir (fs batch_empty_dir) [''empty'']
   \<and> os_access (fs batch_empty_dir) [''empty'']
   \<and> listdir (fs batch_empty_dir) [''empty''] = []
   \<and> \<not> refuses (fs batch_empty_dir) [''empty''] Unlink
   \<and> stop_at batch_empty_dir = None
   \<and> run batch_no_valid = emit (Error No_valid_files) batch_no_valid
   \<and> compute_total (fs batch_empty_dir) (file_paths batch_empty_dir) 0 = Inr 0
   \<and> events (run batch_empty_dir) =
       [File_status (Processing_folder [''empty'']), Folder_deleted [''empty''], Finished]
   \<and> oplog (run batch_empty_dir) = [Rmdir [''empty'']]
   \<and> fs (run batch_empty_dir) = []"
proof -
  have h0: "file_paths batch_no_valid = []"
    by (simp add: batch_no_valid_def init_def env0_def is_valid_file_path_def isfile_def
        isdir_def)
  have h1: "file_paths batch_empty_dir = [[''empty'']]"
    and h2: "isdir (fs batch_empty_dir) [''empty'']"
    and h3: "os_access (fs batch_empty_dir) [''empty'']"
    and h4: "listdir (fs batch_empty_dir) [''empty''] = []"
    and h5: "\<not> refuses (fs batch_empty_dir) [''empty''] Unlink"
    and h6: "stop_at batch_empty_dir = None"
    by (simp_all add: batch_empty_dir_def init_def env0_def is_valid_file_path_def isfile_def
        isdir_def os_access_def exists_path_def refuses_def listdir_def)
  have e: "events batch_empty_dir = []" "oplog batch_empty_dir = []"
    "remove_entry (fs batch_empty_dir) [''empty''] = []"
    by (simp_all add: batch_empty_dir_def init_def env0_def is_valid_file_path_def isfile_def
        isdir_def os_access_def exists_path_def refuses_def remove_entry_def)
  show ?thesis
    using h0 h1 h2 h3 h4 h5 h6 e
      run_fatal_without_paths_not_without_bytes [OF h0 h1 h2 h3 h4 h5 h6]
    by simp
qed

text \<open>
  The batch of one empty file also has a total of zero bytes. Its run opens the
  file, the percentage of line 286 divides by zero, the handler of line 294 reports
  the file, and the file stays.
\<close>

lemma run_batch_empty_file:
  "events (run batch_empty_file) =
     [File_status (Shredding [''e.bin'']), Error (Process_file_failed [''e.bin'']), Finished]
   \<and> oplog (run batch_empty_file) = [Probe [''e.bin''], Open_wb [''e.bin'']]
   \<and> fs (run batch_empty_file) = fs batch_empty_file"
  by (simp add: run_defs batch_empty_file_def)

text \<open>
  Claim C6. The claim says that the lock check, and the termination of the holders
  of a locked file, come before the overwrite of every file, nested ones included.
  Lines 253-264 do it for a directly selected file; the loop of lines 199-239 for
  the files of a selected directory has no such step. In the batch of the directory
  \<^verbatim>\<open>docs\<close>, whose file \<^verbatim>\<open>docs/a.txt\<close> is held open by a process, the run opens the file
  at once, without a probe and without terminating the holder; the open fails, and
  the file and the directory stay.
\<close>

theorem run_batch_nested_locked:
  "take 1 (oplog (run batch_nested_locked)) = [Open_wb [''docs'', ''a.txt'']]
   \<and> Probe [''docs'', ''a.txt''] \<notin> set (oplog (run batch_nested_locked))
   \<and> Terminate 4321 \<notin> set (oplog (run batch_nested_locked))
   \<and> events (run batch_nested_locked) =
       [File_status (Shredding [''docs'', ''a.txt'']),
        Error (Process_file_failed [''docs'', ''a.txt'']),
        File_status (Processing_folder [''docs'']), Finished]
   \<and> fs (run batch_nested_locked) = fs batch_nested_locked"
  by (simp add: run_defs batch_nested_locked_def editor_def)

lemma run_batch_direct_locked:
  "oplog (run batch_direct_locked) =
     [Probe [''docs'', ''a.txt''], Terminate 4321, Wait 4321,
      Open_wb [''docs'', ''a.txt''], Write [''docs'', ''a.txt''] [0, 0, 0],
      Remove [''docs'', ''a.txt'']]"
  by (simp add: run_defs batch_direct_locked_def editor_def)


subsection \<open>The cancellation flag and the \<^verbatim>\<open>finished\<close> signal\<close>

lemma quiet_refl: "quiet st st" by (simp add: quiet_def)
lemma quiet_trans: "quiet a b \<Longrightarrow> quiet b c \<Longrightarrow> quiet a c" by (auto simp: quiet_def)

lemma write_chunks_rel:
  assumes refl: "\<And>s. R s s"
    and trans: "\<And>a b c. R a b \<Longrightarrow> R b c \<Longrightarrow> R a c"
    and poll: "\<And>s. R s (snd (is_running s))"
    and wr: "\<And>s k n. R s (f_write p k (generate_pattern pattern (int n)) s)"
    and upd: "\<And>s n. R s (s\<lparr>processed_size := n\<rparr>)"
    and tp: "\<And>s. R s (snd (timed_progress s))"
  shows "R st (snd (write_chunks p pattern file_size written pos st))"
  using wr
proof (induction p pattern file_size written pos st rule: write_chunks.induct)
  case (1 p pattern file_size written pos st)
  note wr' = "1.prems"
  show ?case
  proof (cases "written < file_size")
    case False
    then show ?thesis by (simp add: write_chunks.simps refl)
  next
    case True
    obtain running st1 where r: "is_running st = (running, st1)" by (cases "is_running st")
    have q1: "R st st1" using poll[of st] r by simp
    show ?thesis
    proof (cases running)
      case False
      then show ?thesis using True r q1 by (simp add: write_chunks.simps)
    next
      case run: True
      define chunk_size where "chunk_size = min CHUNK_SIZE (file_size - written)"
      define chunk where "chunk = generate_pattern pattern (int chunk_size)"
      define st2 where "st2 = f_write p pos chunk st1"
      define st3 where "st3 = st2\<lparr>processed_size := processed_size st2 + chunk_size\<rparr>"
      obtain r4 st4 where t: "timed_progress st3 = (r4, st4)" by (cases "timed_progress st3")
      have q2: "R st1 st2" unfolding st2_def chunk_def by (rule wr')
      have q3: "R st2 st3" unfolding st3_def by (rule upd)
      have q4: "R st3 st4" using tp[of st3] t by simp
      have q: "R st st4" using q1 q2 q3 q4 by (blast intro: trans)
      show ?thesis
      proof (cases r4)
        case (Some e)
        then show ?thesis using True r run t q
          by (simp add: write_chunks.simps[of p pattern file_size written pos st] Let_def
              chunk_size_def[symmetric] chunk_def[symmetric] st2_def[symmetric] st3_def[symmetric])
      next
        case None
        have ih: "R st4 (snd (write_chunks p pattern file_size (written + chunk_size) (pos + length chunk) st4))"
          using "1.IH"[OF True r[symmetric] _ chunk_size_def chunk_def st2_def st3_def _ None, of st4] run t None wr'
          by simp
        show ?thesis using True r run t None trans[OF q ih]
          by (simp add: write_chunks.simps[of p pattern file_size written pos st] Let_def
              chunk_size_def[symmetric] chunk_def[symmetric] st2_def[symmetric] st3_def[symmetric])
      qed
    qed
  qed
qed

lemma quiet_emit: "e \<noteq> Finished \<Longrightarrow> quiet st (emit e st)" by (auto simp: quiet_def emit_def)
lemma quiet_is_running: "is_running st = (r, st1) \<Longrightarrow> quiet st st1"
  by (auto simp: quiet_def is_running_def)
lemma quiet_open_file: "open_file m p st = (r, st1) \<Longrightarrow> quiet st st1"
  by (auto simp: quiet_def open_file_def record_op_def Let_def split: mode.splits if_splits)
lemma quiet_f_write: "quiet st (f_write p pos c st)"
  by (simp add: quiet_def f_write_def record_op_def Let_def split: option.splits node.splits)
lemma quiet_os_remove: "os_remove p st = (r, st1) \<Longrightarrow> quiet st st1"
  by (auto simp: quiet_def os_remove_def record_op_def Let_def split: if_splits)
lemma quiet_emit_progress: "emit_progress st = (r, st1) \<Longrightarrow> quiet st st1"
  by (auto simp: quiet_def emit_progress_def emit_def split: sum.splits)
lemma quiet_timed_progress: "timed_progress st = (r, st1) \<Longrightarrow> quiet st st1"
  by (auto simp: quiet_def timed_progress_def time_time_def should_update_progress_def
      emit_progress_def emit_def split: sum.splits if_splits)

lemma quiet_write_chunks: "write_chunks p pattern file_size written pos st = (r, st1) \<Longrightarrow> quiet st st1"
proof -
  have "quiet st (snd (write_chunks p pattern file_size written pos st))"
  proof (rule write_chunks_rel)
    show "\<And>s. quiet s s" by (rule quiet_refl)
    show "\<And>a b c. quiet a b \<Longrightarrow> quiet b c \<Longrightarrow> quiet a c" by (rule quiet_trans)
    show "\<And>s. quiet s (snd (is_running s))" by (simp add: quiet_def is_running_def)
    show "\<And>s k n. quiet s (f_write p k (generate_pattern pattern (int n)) s)" by (rule quiet_f_write)
    show "\<And>s n. quiet s (s\<lparr>processed_size := n\<rparr>)" by (simp add: quiet_def)
    show "\<And>s. quiet s (snd (timed_progress s))" using quiet_timed_progress by (metis prod.collapse)
  qed
  then show "write_chunks p pattern file_size written pos st = (r, st1) \<Longrightarrow> quiet st st1" by simp
qed

lemma quiet_overwrite_passes:
  "overwrite_passes p file_size i passes st = (r, st1) \<Longrightarrow> quiet st st1"
proof (induction passes arbitrary: i st r st1)
  case Nil
  then show ?case by (simp add: quiet_refl)
next
  case (Cons pattern rest)
  show ?case using Cons.prems
    by (auto split: prod.splits if_splits option.splits outcome.splits
        dest!: quiet_is_running quiet_open_file quiet_write_chunks quiet_emit_progress Cons.IH
        simp: quiet_def)
qed

lemma quiet_shred_file: "shred_file p st = (r, st1) \<Longrightarrow> quiet st st1"
proof -
  have upd: "\<And>g. quiet st (st\<lparr>random := g\<rparr>)" by (simp add: quiet_def)
  show "shred_file p st = (r, st1) \<Longrightarrow> quiet st st1"
    unfolding shred_file_def
    by (auto split: sum.splits prod.splits outcome.splits option.splits
        dest!: quiet_overwrite_passes quiet_os_remove
        intro: quiet_trans[OF upd] quiet_trans quiet_emit)
qed

lemma quiet_shred_files: "shred_files root_dir files st = (r, st1) \<Longrightarrow> quiet st st1"
proof (induction files arbitrary: st r st1)
  case Nil
  then show ?case by (simp add: quiet_refl)
next
  case (Cons f rest)
  have e: "\<And>s x. quiet s (emit (File_status x) s)" by (simp add: quiet_emit)
  show ?case using Cons.prems
    by (auto simp: Let_def split: if_splits prod.splits outcome.splits
        dest!: quiet_shred_file Cons.IH intro: quiet_trans[OF e] quiet_trans)
qed

lemma quiet_shred_walk:
  "shred_walk entries folders st = (r, folders1, st1) \<Longrightarrow> quiet st st1"
proof (induction entries arbitrary: folders st r folders1 st1)
  case Nil
  then show ?case by (simp add: quiet_refl)
next
  case (Cons entry rest)
  obtain root_dir dirs files where e: "entry = (root_dir, dirs, files)" by (cases entry)
  show ?case using Cons.prems unfolding e
    by (auto split: prod.splits outcome.splits dest!: quiet_shred_files Cons.IH intro: quiet_trans)
qed

lemma quiet_terminate_all: "quiet st (terminate_all ps st)"
proof (induction ps arbitrary: st)
  case Nil
  then show ?case by (simp add: quiet_refl)
next
  case (Cons i rest)
  have u: "\<And>a b. quiet st (st\<lparr>procs := a, oplog := b\<rparr>)" by (simp add: quiet_def)
  show ?case
    by (auto split: prod.splits intro: quiet_trans[OF u] Cons.IH)
qed

lemma quiet_is_file_in_use: "is_file_in_use p st = (r, st1) \<Longrightarrow> quiet st st1"
  by (auto simp: quiet_def is_file_in_use_def record_op_def Let_def split: if_splits)

lemma quiet_resolve_locks: "quiet st (resolve_locks p st)"
proof -
  obtain in_use s1 where u: "is_file_in_use p st = (in_use, s1)" by (cases "is_file_in_use p st")
  have q1: "quiet st s1" using u by (rule quiet_is_file_in_use)
  have q2: "quiet s1 (emit (File_status (In_use p)) s1)" by (simp add: quiet_emit)
  have q3: "\<And>ps. quiet st (terminate_all ps (emit (File_status (In_use p)) s1))"
    using q1 q2 quiet_terminate_all by (blast intro: quiet_trans)
  show ?thesis
    using u q1 q2 q3 by (auto simp: resolve_locks_def Let_def intro: quiet_trans)
qed

lemma quiet_process_paths:
  "process_paths idx paths folders st = (r, folders1, st1) \<Longrightarrow> quiet st st1"
proof (induction paths arbitrary: idx folders st r folders1 st1)
  case Nil
  then show ?case by (simp add: quiet_refl)
next
  case (Cons file_path rest)
  obtain running sa where p: "is_running st = (running, sa)" by (cases "is_running st")
  have q1: "quiet st sa" using p by (rule quiet_is_running)
  show ?case
  proof (cases running)
    case False
    then show ?thesis using Cons.prems p q1
      by (auto intro: quiet_trans quiet_emit)
  next
    case True
    define sb where "sb = sa\<lparr>current_file_index := idx\<rparr>"
    have q2: "quiet st sb" using q1 by (simp add: sb_def quiet_def)
    have fsb: "fs sb = fs sa" by (simp add: sb_def)
    consider (invalid) "\<not> is_valid_file_path (fs sb) file_path"
      | (adir) "is_valid_file_path (fs sb) file_path" "isdir (fs sb) file_path"
      | (afile) "is_valid_file_path (fs sb) file_path" "\<not> isdir (fs sb) file_path"
      by blast
    then show ?thesis
    proof cases
      case invalid
      then have "process_paths (idx + 1) rest folders sb = (r, folders1, st1)"
        using Cons.prems p True by (simp add: sb_def Let_def)
      then show ?thesis using Cons.IH q2 by (blast intro: quiet_trans)
    next
      case adir
      obtain r3 f3 s3 where w: "shred_walk (walk_up (fs sb) file_path) (set_add file_path folders) sb = (r3, f3, s3)"
        by (cases "shred_walk (walk_up (fs sb) file_path) (set_add file_path folders) sb")
      have q3: "quiet st s3" using quiet_shred_walk[OF w] q2 by (blast intro: quiet_trans)
      show ?thesis
      proof (cases r3)
        case Done
        then have "process_paths (idx + 1) rest f3 s3 = (r, folders1, st1)"
          using Cons.prems p True adir w by (simp add: sb_def Let_def)
        then show ?thesis using Cons.IH q3 by (blast intro: quiet_trans)
      next
        case Returned
        then have "st1 = s3" using Cons.prems p True adir w by (simp add: sb_def Let_def)
        then show ?thesis using q3 by simp
      next
        case (Raised e)
        then have "st1 = s3" using Cons.prems p True adir w by (simp add: sb_def Let_def)
        then show ?thesis using q3 by simp
      qed
    next
      case afile
      define sc where "sc = resolve_locks file_path (emit (File_status (Shredding file_path)) sb)"
      have q3: "quiet st sc" unfolding sc_def
        using q2 quiet_resolve_locks quiet_emit[of "File_status (Shredding file_path)" sb]
        by (blast intro: quiet_trans)
      obtain r4 s4 where w: "shred_file file_path sc = (r4, s4)" by (cases "shred_file file_path sc")
      have q4: "quiet st s4" using quiet_shred_file[OF w] q3 by (blast intro: quiet_trans)
      show ?thesis
      proof (cases r4)
        case Done
        then have "process_paths (idx + 1) rest folders s4 = (r, folders1, st1)"
          using Cons.prems p True afile w by (simp add: sb_def sc_def Let_def)
        then show ?thesis using Cons.IH q4 by (blast intro: quiet_trans)
      next
        case Returned
        then have "st1 = s4" using Cons.prems p True afile w by (simp add: sb_def sc_def Let_def)
        then show ?thesis using q4 by simp
      next
        case (Raised e)
        then have "st1 = s4" using Cons.prems p True afile w by (simp add: sb_def sc_def Let_def)
        then show ?thesis using q4 by simp
      qed
    qed
  qed
qed

lemma folder_step_refl: "folder_step s s" by (simp add: folder_step_def)
lemma folder_step_trans: "folder_step a b \<Longrightarrow> folder_step b c \<Longrightarrow> folder_step a c"
  by (auto simp: folder_step_def)

lemma folder_step_remove_folder: "folder_step st (remove_folder folder st)"
  by (auto simp: folder_step_def remove_folder_def delete_renamed_def os_rmdir_def os_rename_def
      shutil_move_def shutil_rmtree_def shell_rm_def emit_def record_op_def Let_def
      split: prod.splits option.splits if_splits)

lemma folder_step_remove_folders: "folder_step st (remove_folders folders st)"
proof (induction folders arbitrary: st)
  case Nil
  then show ?case by (simp add: folder_step_refl)
next
  case (Cons f rest)
  show ?case using folder_step_remove_folder[of st f] Cons.IH[of "remove_folder f st"]
    by (auto intro: folder_step_trans)
qed

text \<open>
  Claim C8. \<^verbatim>\<open>finished()\<close> is emitted only if the cancellation flag was never set
  during the batch. In the model: when \<^verbatim>\<open>stop()\<close> is called after \<open>k\<close> reads of the
  flag and the run reads the flag more than \<open>k\<close> times, so that \<^verbatim>\<open>stop()\<close> came before
  the last read of the run (the test of line 375 when the run gets there), the run
  emits no \<^verbatim>\<open>finished\<close> signal, whatever was done before.
\<close>

theorem run_stopped_never_finished:
  assumes stop: "stop_at st = Some k"
    and seen: "k < polls (run st)"
    and fresh: "Finished \<notin> set (events st)"
  shows "Finished \<notin> set (events (run st))"
proof (cases "file_paths st = []")
  case True
  then show ?thesis using fresh by (simp add: run_def emit_def)
next
  case False
  show ?thesis
  proof (cases "compute_total (fs st) (file_paths st) 0")
    case (Inl e)
    then show ?thesis using False fresh by (simp add: run_def emit_def)
  next
    case (Inr total_bytes)
    define s0 where "s0 = st\<lparr>total_size := total_bytes, processed_size := 0\<rparr>"
    obtain r folders s1 where pp: "process_paths 0 (file_paths st) [] s0 = (r, folders, s1)"
      by (cases "process_paths 0 (file_paths st) [] s0")
    have q0: "quiet st s0" by (simp add: s0_def quiet_def)
    have q1: "quiet st s1" using quiet_process_paths[OF pp] q0 by (blast intro: quiet_trans)
    show ?thesis
    proof (cases r)
      case Returned
      then have "run st = s1" using False Inr pp by (simp add: run_def s0_def)
      then show ?thesis using q1 fresh by (simp add: quiet_def)
    next
      case (Raised e)
      then have "run st = emit (Error (Run_failed e)) s1" using False Inr pp by (simp add: run_def s0_def)
      then show ?thesis using q1 fresh by (simp add: quiet_def emit_def)
    next
      case Done
      define s2 where "s2 = remove_folders folders s1"
      have q2: "folder_step s1 s2" unfolding s2_def by (rule folder_step_remove_folders)
      have r: "run st = finish_batch folders s1" using Done False Inr pp by (simp add: run_def s0_def)
      have st2: "stop_at s2 = Some k" "Finished \<notin> set (events s2)"
        using q1 q2 stop fresh by (auto simp: quiet_def folder_step_def)
      show ?thesis
      proof (cases "polls s2 < k")
        case True
        then have "polls (run st) = polls s2 + 1"
          using r st2 by (simp add: finish_batch_def is_running_def emit_def s2_def[symmetric])
        then show ?thesis using seen True by simp
      next
        case False
        then have "events (run st) = events s2"
          using r st2 by (simp add: finish_batch_def is_running_def s2_def[symmetric])
        then show ?thesis using st2 by simp
      qed
    qed
  qed
qed

theorem run_stopped_never_finished_witness:
  "stop_at batch_2048_late_stop = Some 3
   \<and> 3 < polls (run batch_2048_late_stop)
   \<and> Finished \<notin> set (events batch_2048_late_stop)
   \<and> Finished \<notin> set (events (run batch_2048_late_stop))"
proof -
  have h1: "stop_at batch_2048_late_stop = Some 3"
    by (simp add: batch_2048_late_stop_def)
  have h2: "3 < polls (run batch_2048_late_stop)"
    by (simp add: run_defs batch_2048_def batch_2048_late_stop_def)
  have h3: "Finished \<notin> set (events batch_2048_late_stop)"
    by (simp add: run_defs batch_2048_def batch_2048_late_stop_def)
  show ?thesis
    using h1 h2 h3 run_stopped_never_finished [OF h1 h2 h3] by simp
qed

lemma run_batch_2048_late_stop:
  "oplog (run batch_2048_late_stop) =
     [Probe [''data.bin''], Open_wb [''data.bin''],
      Write [''data.bin''] (replicate 1024 0), Remove [''data.bin'']]
   \<and> events (run batch_2048_late_stop) =
     [File_status (Shredding [''data.bin'']), Progress 100, Progress 100]
   \<and> fs (run batch_2048_late_stop) = []"
  by (simp add: run_defs batch_2048_def batch_2048_late_stop_def)

subsection \<open>The chunks of a random pass\<close>

lemma get_passes_DoD_cursor:
  "cursor (snd (get_passes DoD_5220_22_M g)) = cursor g + 1024"
  by (simp add: get_passes_def split_beta random_bytes_cursor)

lemma length_drawn_buffer: "length drawn_buffer = 1024"
  by (simp add: drawn_buffer_def get_passes_DoD_5220_22_M random_bytes_length)

text \<open>
  Claim C3, as stated: within a random pass every chunk is drawn freshly, never the
  same buffer again. For a file of two chunks the random pass of the three-pass
  standard writes the buffer drawn by \<^verbatim>\<open>get_passes\<close> twice, and the generator is
  after the two writes where \<^verbatim>\<open>get_passes\<close> left it, 1024 outputs from the start.
\<close>

theorem write_chunks_two_chunks_reuse:
  "oplog (snd (write_chunks [''big.bin''] drawn_buffer 131072 0 0 two_chunk_env)) =
     [Write [''big.bin''] drawn_buffer, Write [''big.bin''] drawn_buffer]
   \<and> cursor (random (snd (write_chunks [''big.bin''] drawn_buffer 131072 0 0 two_chunk_env)))
       = 1024
   \<and> cursor (random two_chunk_env) = 1024"
  by (simp add: write_chunks.simps two_chunk_env_def env0_def is_running_def Let_def
      CHUNK_SIZE_def generate_pattern_def length_drawn_buffer f_write_def record_op_def
      set_content_def timed_progress_def time_time_def should_update_progress_def
      update_interval_def emit_progress_def total_percent_def emit_def get_passes_DoD_cursor)

lemma random_buffers_cursor: "cursor (snd (random_buffers k g)) = cursor g + 1024 * k"
  by (induction k arbitrary: g) (simp_all add: split_beta random_bytes_cursor)

lemma get_passes_cursor:
  "cursor (snd (get_passes m g)) =
     cursor g + 1024 * (case m of DoD_5220_22_M \<Rightarrow> 1 | DoD_5220_22_M_ECE \<Rightarrow> 2 | Gutmann \<Rightarrow> 10
                          | German_VSITR \<Rightarrow> 2 | Other_label \<Rightarrow> 0)"
  by (cases m) (simp_all add: get_passes_def split_beta random_bytes_cursor random_buffers_cursor)

lemma is_running_random: "is_running st = (r, st1) \<Longrightarrow> random st1 = random st"
  by (auto simp: is_running_def)
lemma open_file_random: "open_file m p st = (r, st1) \<Longrightarrow> random st1 = random st"
  by (auto simp: open_file_def record_op_def Let_def split: mode.splits if_splits)
lemma emit_progress_random: "emit_progress st = (r, st1) \<Longrightarrow> random st1 = random st"
  by (auto simp: emit_progress_def emit_def split: sum.splits)
lemma os_remove_random: "os_remove p st = (r, st1) \<Longrightarrow> random st1 = random st"
  by (auto simp: os_remove_def record_op_def Let_def split: if_splits)

lemma write_chunks_random:
  "random (snd (write_chunks p pattern file_size written pos st)) = random st"
proof (rule write_chunks_rel [where R = "\<lambda>s s'. random s' = random s"])
  show "\<And>s k n. random (f_write p k (generate_pattern pattern (int n)) s) = random s"
    by (simp add: f_write_def record_op_def Let_def split: option.splits node.splits)
  show "\<And>s. random (snd (timed_progress s)) = random s"
    by (simp add: timed_progress_def time_time_def should_update_progress_def
        emit_progress_def emit_def split_beta split: sum.splits)
qed (simp_all add: is_running_def)

lemma write_chunks_random': "write_chunks p pattern file_size written pos st = (r, st1) \<Longrightarrow> random st1 = random st"
  using write_chunks_random [of p pattern file_size written pos st] by simp

lemma overwrite_passes_random:
  "overwrite_passes p file_size i passes st = (r, st1) \<Longrightarrow> random st1 = random st"
proof (induction passes arbitrary: i st r st1)
  case Nil
  then show ?case by simp
next
  case (Cons pattern rest)
  show ?case using Cons.prems
    by (auto split: prod.splits if_splits option.splits outcome.splits
        dest!: is_running_random open_file_random write_chunks_random' emit_progress_random Cons.IH)
qed

text \<open>
  Claim C3, amended: the random values of a file are drawn once, by the call of
  \<^verbatim>\<open>get_passes\<close> for that file: 1024 values for each random pass of the standard.
  Overwriting the file draws nothing: after the file is destroyed the generator is
  where \<^verbatim>\<open>get_passes\<close> left it, whatever the size of the file and the number of its
  chunks, and the chunk loop leaves the generator as it finds it.
\<close>

theorem shred_file_draws_once:
  "random (snd (shred_file p st)) =
     (case getsize (fs st) p of
        Inl e \<Rightarrow> random st
      | Inr n \<Rightarrow> snd (get_passes (erase_method st) (random st)))
   \<and> random (snd (write_chunks p pattern file_size written pos st)) = random st
   \<and> cursor (snd (get_passes m g)) =
       cursor g + 1024 * (case m of DoD_5220_22_M \<Rightarrow> 1 | DoD_5220_22_M_ECE \<Rightarrow> 2
                            | Gutmann \<Rightarrow> 10 | German_VSITR \<Rightarrow> 2 | Other_label \<Rightarrow> 0)"
proof -
  have "random (snd (shred_file p st)) =
     (case getsize (fs st) p of
        Inl e \<Rightarrow> random st
      | Inr n \<Rightarrow> snd (get_passes (erase_method st) (random st)))"
  proof (cases "getsize (fs st) p")
    case (Inl e)
    then show ?thesis by (simp add: shred_file_def emit_def)
  next
    case (Inr n)
    define g where "g = snd (get_passes (erase_method st) (random st))"
    define passes where "passes = fst (get_passes (erase_method st) (random st))"
    obtain r s1 where o: "overwrite_passes p n 0 passes (st\<lparr>random := g\<rparr>) = (r, s1)"
      by (cases "overwrite_passes p n 0 passes (st\<lparr>random := g\<rparr>)")
    have r1: "random s1 = g" using overwrite_passes_random [OF o] by simp
    obtain r2 s2 where d: "os_remove p s1 = (r2, s2)" by (cases "os_remove p s1")
    have r2: "random s2 = g" using os_remove_random [OF d] r1 by simp
    have "random (snd (shred_file p st)) = g"
      using Inr o d r1 r2
      by (simp add: shred_file_def split_beta g_def [symmetric] passes_def [symmetric] emit_def
          split: outcome.splits option.splits)
    then show ?thesis using Inr by (simp add: g_def)
  qed
  then show ?thesis using write_chunks_random get_passes_cursor by simp
qed

theorem shred_file_draws_once_witness:
  "getsize (fs big_file_env) [''big.bin''] = Inr 131072
   \<and> cursor (random big_file_env) = 0
   \<and> cursor (random (snd (shred_file [''big.bin''] big_file_env))) = 1024"
proof -
  have h: "getsize (fs big_file_env) [''big.bin''] = Inr 131072"
    by (simp add: big_file_env_def env0_def getsize_def)
  have c: "cursor (random big_file_env) = 0" "erase_method big_file_env = DoD_5220_22_M"
    by (simp_all add: big_file_env_def env0_def)
  have "random (snd (shred_file [''big.bin''] big_file_env))
          = snd (get_passes DoD_5220_22_M (random big_file_env))"
    using shred_file_draws_once [where p = "[''big.bin'']" and st = big_file_env] h c by simp
  moreover have "cursor (snd (get_passes DoD_5220_22_M (random big_file_env))) = 1024"
    using shred_file_draws_once [where m = DoD_5220_22_M and g = "random big_file_env"] c by simp
  ultimately show ?thesis using h c by simp
qed

subsection \<open>The path of the \<^verbatim>\<open>folder_deleted\<close> signal\<close>

lemma os_rmdir_events: "events (snd (os_rmdir d st)) = events st"
  by (simp add: os_rmdir_def record_op_def Let_def)
lemma os_rmdir_random: "random (snd (os_rmdir d st)) = random st"
  by (simp add: os_rmdir_def record_op_def Let_def)
lemma os_rmdir_emit: "fst (os_rmdir d (emit e st)) = fst (os_rmdir d st)"
  by (simp add: os_rmdir_def record_op_def emit_def Let_def)
lemma os_rename_events: "events (snd (os_rename d t st)) = events st"
  by (simp add: os_rename_def record_op_def Let_def)
lemma shutil_move_events: "events (snd (shutil_move d t st)) = events st"
  by (simp add: shutil_move_def record_op_def Let_def)
lemma shutil_rmtree_events: "events (shutil_rmtree d st) = events st"
  by (simp add: shutil_rmtree_def record_op_def Let_def)
lemma shell_rm_events: "events (snd (shell_rm d st)) = events st"
  by (simp add: shell_rm_def record_op_def Let_def)

lemma delete_renamed_events:
  "events (delete_renamed t st) = events st @ [Folder_deleted t]
   \<or> events (delete_renamed t st) = events st @ [Error (Delete_folder_failed t)]"
  by (simp add: delete_renamed_def Let_def split_beta emit_def shutil_rmtree_events shell_rm_events)

lemma random_choices_name:
  "length (fst (random_choices k g)) = k \<and> set (fst (random_choices k g)) \<subseteq> set alphabet"
proof -
  have "length alphabet = 62" by (simp add: alphabet_def)
  then have "\<And>x. alphabet ! (x mod length alphabet) \<in> set alphabet"
    by (simp add: nth_mem)
  then show ?thesis by (auto simp: random_choices_def)
qed

lemma remove_folder_events:
  "events (remove_folder folder st) = events st
   \<or> (fst (os_rmdir folder st) = None
       \<and> events (remove_folder folder st) =
            events st @ [File_status (Processing_folder folder), Folder_deleted folder])
   \<or> (fst (os_rmdir folder st) \<noteq> None
       \<and> events (remove_folder folder st) \<in>
            {events st @ [File_status (Processing_folder folder)],
             events st @ [File_status (Processing_folder folder),
                          Folder_deleted (butlast folder @ [fst (random_choices 8 (random st))])],
             events st @ [File_status (Processing_folder folder),
                          Error (Delete_folder_failed
                                   (butlast folder @ [fst (random_choices 8 (random st))]))]})"
proof (cases "exists_path (fs st) folder")
  case False
  then show ?thesis by (simp add: remove_folder_def)
next
  case True
  define s0 where "s0 = emit (File_status (Processing_folder folder)) st"
  obtain r1 s1 where a: "os_rmdir folder s0 = (r1, s1)" by (cases "os_rmdir folder s0")
  have r1: "r1 = fst (os_rmdir folder st)"
    using a os_rmdir_emit[of folder "File_status (Processing_folder folder)" st]
    by (simp add: s0_def)
  have e1: "events s1 = events st @ [File_status (Processing_folder folder)]"
    using a os_rmdir_events[of folder s0] by (simp add: s0_def emit_def)
  have g1: "random s1 = random st"
    using a os_rmdir_random[of folder s0] by (simp add: s0_def emit_def)
  show ?thesis
  proof (cases r1)
    case None
    then have "remove_folder folder st = emit (Folder_deleted folder) s1"
      using True a by (simp add: remove_folder_def s0_def[symmetric])
    then show ?thesis using None e1 r1 by (simp add: emit_def)
  next
    case (Some e)
    define random_name where "random_name = fst (random_choices 8 (random st))"
    define g where "g = snd (random_choices 8 (random st))"
    define t where "t = butlast folder @ [random_name]"
    define s1g where "s1g = s1\<lparr>random := g\<rparr>"
    obtain r2 s2 where b: "os_rename folder t s1g = (r2, s2)" by (cases "os_rename folder t s1g")
    obtain r3 s3 where m: "shutil_move folder t s2 = (r3, s3)" by (cases "shutil_move folder t s2")
    have e2: "events s2 = events s1" using b os_rename_events[of folder t s1g] by (simp add: s1g_def)
    have e3: "events s3 = events s2" using m shutil_move_events[of folder t s2] by simp
    have rhs: "remove_folder folder st =
       (case r2 of None \<Rightarrow> delete_renamed t s2
        | Some e1 \<Rightarrow> (case r3 of None \<Rightarrow> delete_renamed t s3 | Some e2 \<Rightarrow> s3))"
      using True a Some b m g1
      by (simp add: remove_folder_def Let_def split_beta s0_def[symmetric] random_name_def[symmetric]
          g_def[symmetric] s1g_def[symmetric] t_def[symmetric] split: option.splits)
    have "events (remove_folder folder st) \<in>
            {events st @ [File_status (Processing_folder folder)],
             events st @ [File_status (Processing_folder folder), Folder_deleted t],
             events st @ [File_status (Processing_folder folder), Error (Delete_folder_failed t)]}"
      unfolding rhs
      using delete_renamed_events[of t s2] delete_renamed_events[of t s3] e1 e2 e3
      by (auto split: option.splits)
    then show ?thesis using Some r1 by (simp add: t_def random_name_def)
  qed
qed

text \<open>
  Claim C9. A \<^verbatim>\<open>folder_deleted\<close> signal emitted while a folder is processed carries
  the folder's own path when the plain \<^verbatim>\<open>os.rmdir\<close> succeeded, and otherwise the
  renamed path: the folder's directory joined with the random name, which has eight
  characters, all letters or digits.
\<close>

theorem folder_deleted_path:
  assumes new: "events (remove_folder folder st) = events st @ new"
    and p: "Folder_deleted p \<in> set new"
  shows "p = (if fst (os_rmdir folder st) = None then folder
              else butlast folder @ [fst (random_choices 8 (random st))])
         \<and> length (fst (random_choices 8 (random st))) = 8
         \<and> set (fst (random_choices 8 (random st))) \<subseteq> set alphabet"
proof -
  have "p = (if fst (os_rmdir folder st) = None then folder
              else butlast folder @ [fst (random_choices 8 (random st))])"
    using remove_folder_events[of folder st] new p by auto
  then show ?thesis using random_choices_name[of 8 "random st"] by simp
qed

lemma upt_0_8: "[0..<8] = [0, 1, 2, 3, 4, 5, 6, 7]"
  by (simp add: upt_rec)

theorem folder_deleted_path_witness:
  "events (remove_folder [''docs''] residual_env) =
     events residual_env @ [File_status (Processing_folder [''docs'']), Folder_deleted [''abcdefgh'']]
   \<and> Folder_deleted [''abcdefgh'']
        \<in> set [File_status (Processing_folder [''docs'']), Folder_deleted [''abcdefgh'']]
   \<and> fst (os_rmdir [''docs''] residual_env) \<noteq> None
   \<and> [''abcdefgh''] = butlast [''docs''] @ [fst (random_choices 8 (random residual_env))]"
proof -
  have h1: "events (remove_folder [''docs''] residual_env) =
     events residual_env @ [File_status (Processing_folder [''docs'']), Folder_deleted [''abcdefgh'']]"
    by (simp add: run_defs residual_env_def upt_0_8)
  have h2: "Folder_deleted [''abcdefgh'']
        \<in> set [File_status (Processing_folder [''docs'']), Folder_deleted [''abcdefgh'']]"
    by simp
  have h3: "fst (os_rmdir [''docs''] residual_env) \<noteq> None"
    by (simp add: run_defs residual_env_def)
  have "[''abcdefgh''] =
          (if fst (os_rmdir [''docs''] residual_env) = None then [''docs'']
           else butlast [''docs''] @ [fst (random_choices 8 (random residual_env))])"
    using folder_deleted_path [OF h1 h2] by (rule conjunct1)
  then have h4: "[''abcdefgh''] = butlast [''docs''] @ [fst (random_choices 8 (random residual_env))]"
    using h3 by simp
  show ?thesis
    using h1 h2 h3 h4 by blast
qed

lemma run_batch_residual:
  "events (run batch_residual) =
     [File_status (Processing_folder [''docs'']), Folder_deleted [''abcdefgh''], Finished]
   \<and> oplog (run batch_residual) =
     [Rmdir [''docs''], Rename [''docs''] [''abcdefgh''], Rmtree [''abcdefgh'']]
   \<and> fs (run batch_residual) = []"
  by (simp add: run_defs batch_residual_def residual_env_def upt_0_8)

subsection \<open>The flag during the removal of the folders\<close>

lemma locked_stop [simp]: "locked (st\<lparr>stop_at := c\<rparr>) p = locked st p"
  by (simp add: locked_def)
lemma locked_below_stop [simp]: "locked_below (st\<lparr>stop_at := c\<rparr>) p = locked_below st p"
  by (simp add: locked_below_def)


lemma random_stop_commute:
  "st\<lparr>stop_at := c, random := g\<rparr> = st\<lparr>random := g, stop_at := c\<rparr>"
  by simp












end
